theory Spec2Isabelle
  imports Main "HOL-Library.AList"
begin

text \<open>
  A shallow embedding of the recipe endpoint of cook-dobby, the \<^verbatim>\<open>POST\<close> handler of
  \<^verbatim>\<open>src/app/api/recipe/route.ts\<close>: the slug of a title, the transport that retries the call
  of the model provider, the extraction of the model's JSON from its completion, the
  validation and normalisation of the two payload shapes, and the handler that puts them
  together. Exceptions are values (\<open>Inl\<close> of a sum), the provider and the platform's
  \<^verbatim>\<open>JSON.parse\<close> are arguments, and an assignment to a property returns the new object.
  The definitions come first; the properties of the endpoint are proved after them.
\<close>

section \<open>Text\<close>

text \<open>
  The handler of \<^verbatim>\<open>src/app/api/recipe/route.ts\<close> works on JavaScript strings. They are
  modelled as \<^typ>\<open>string\<close>, a character standing for an ASCII code unit: the white space of
  \<^verbatim>\<open>trim()\<close> and of the regular expression class \<^verbatim>\<open>\s\<close> is the ASCII white space (tab,
  line feed, vertical tab, form feed, carriage return, space), and the case mappings act
  on the ASCII letters and leave every other character alone. The white space and the
  case mappings that Unicode defines outside ASCII are not modelled.
\<close>

definition isSpace :: "char \<Rightarrow> bool" where
  "isSpace c = (c \<in> {CHR 0x09, CHR 0x0A, CHR 0x0B, CHR 0x0C, CHR 0x0D, CHR 0x20})"

definition lowers :: string where
  "lowers = ''abcdefghijklmnopqrstuvwxyz''"

definition uppers :: string where
  "uppers = ''ABCDEFGHIJKLMNOPQRSTUVWXYZ''"

definition digits :: string where
  "digits = ''0123456789''"

definition toUpperChar :: "char \<Rightarrow> char" where
  "toUpperChar c = (case map_of (zip lowers uppers) c of Some u \<Rightarrow> u | None \<Rightarrow> c)"

definition toLowerChar :: "char \<Rightarrow> char" where
  "toLowerChar c = (case map_of (zip uppers lowers) c of Some l \<Rightarrow> l | None \<Rightarrow> c)"

definition toUpperCase :: "string \<Rightarrow> string" where
  "toUpperCase s = map toUpperChar s"

definition toLowerCase :: "string \<Rightarrow> string" where
  "toLowerCase s = map toLowerChar s"

text \<open>\<^verbatim>\<open>s.trim()\<close>: the white space at both ends is removed.\<close>

definition trim :: "string \<Rightarrow> string" where
  "trim s = rev (dropWhile isSpace (rev (dropWhile isSpace s)))"

text \<open>\<^verbatim>\<open>s.startsWith("/")\<close>.\<close>

fun startsWithSlash :: "string \<Rightarrow> bool" where
  "startsWithSlash [] = False"
| "startsWithSlash (c # cs) = (c = CHR ''/'')"

text \<open>
  \<^verbatim>\<open>.replace(/[^a-z0-9\s-]/g, "")\<close> keeps the characters of the class and drops the others.
\<close>

definition slugChar :: "char \<Rightarrow> bool" where
  "slugChar c = (c \<in> set lowers \<or> c \<in> set digits \<or> isSpace c \<or> c = CHR ''-'')"

text \<open>
  \<^verbatim>\<open>.replace(/\s+/g, "-")\<close>: every maximal run of white space becomes one hyphen.
\<close>

function dashRuns :: "string \<Rightarrow> string" where
  "dashRuns [] = []"
| "dashRuns (c # cs) =
     (if isSpace c then CHR ''-'' # dashRuns (dropWhile isSpace cs) else c # dashRuns cs)"
  by pat_completeness auto
termination
  by (relation "measure length") (auto intro: le_imp_less_Suc length_dropWhile_le)

text \<open>
  \<^verbatim>\<open>
  function slugify(input: string) {
    return input.toLowerCase().replace(/[^a-z0-9\s-]/g, "").trim().replace(/\s+/g, "-");
  }
  \<close>
\<close>

definition slugify :: "string \<Rightarrow> string" where
  "slugify input = dashRuns (trim (filter slugChar (toLowerCase input)))"

section \<open>JSON values\<close>

text \<open>
  What \<^verbatim>\<open>JSON.parse\<close> returns. An object is the list of its properties in insertion
  order (the order of JavaScript for names that are no array indices, as the names of the
  handler are); a lookup takes the first property of a name, and the objects of a parse
  have no name twice. A number is carried as the text \<^verbatim>\<open>String(n)\<close> gives for it, which is all the
  handler can observe of a number besides its truthiness: the text of zero is \<^verbatim>\<open>0\<close>
  (also for \<^verbatim>\<open>-0\<close>), and \<^verbatim>\<open>NaN\<close> is no JSON number.
\<close>

datatype json =
    JNull
  | JBool bool
  | JNum string
  | JStr string
  | JArr "json list"
  | JObj "(string \<times> json) list"

text \<open>
  The exceptions of the handler: the engine's \<^verbatim>\<open>TypeError\<close> (a property read on
  \<^verbatim>\<open>null\<close> or \<^verbatim>\<open>undefined\<close>, a call of something that is no function), the
  \<^verbatim>\<open>SyntaxError\<close> of a failed parse, an \<^verbatim>\<open>Error\<close> with its message, and the rejection
  of \<^verbatim>\<open>fetch\<close> with its message.
\<close>

datatype exn = TypeError | SyntaxError | Error string | FetchFailed string

text \<open>
  Reading one of the handler's property names (\<^verbatim>\<open>mode\<close>, \<^verbatim>\<open>title\<close>, ...) from a value
  that is neither \<^verbatim>\<open>null\<close> nor \<^verbatim>\<open>undefined\<close>; \<open>None\<close> is \<^verbatim>\<open>undefined\<close>. Arrays, strings,
  numbers and booleans have no property of these names.
\<close>

fun getProp :: "string \<Rightarrow> json \<Rightarrow> json option" where
  "getProp k (JObj kvs) = map_of kvs k"
| "getProp k v = None"

text \<open>\<^verbatim>\<open>v.k\<close>: a \<^verbatim>\<open>TypeError\<close> on \<^verbatim>\<open>null\<close>.\<close>

fun dot :: "json \<Rightarrow> string \<Rightarrow> exn + json option" where
  "dot JNull k = Inl TypeError"
| "dot v k = Inr (getProp k v)"

text \<open>\<^verbatim>\<open>v?.k\<close> on a value that may be \<^verbatim>\<open>undefined\<close>.\<close>

fun optDot :: "json option \<Rightarrow> string \<Rightarrow> json option" where
  "optDot None k = None"
| "optDot (Some JNull) k = None"
| "optDot (Some v) k = getProp k v"

text \<open>
  \<^verbatim>\<open>v?.[0]\<close>: the first element of an array, the first character of a string, the
  property \<^verbatim>\<open>"0"\<close> of an object.
\<close>

fun optFirst :: "json option \<Rightarrow> json option" where
  "optFirst (Some (JArr (x # xs))) = Some x"
| "optFirst (Some (JStr (c # cs))) = Some (JStr [c])"
| "optFirst (Some (JObj kvs)) = map_of kvs ''0''"
| "optFirst v = None"

text \<open>
  \<^verbatim>\<open>obj.k = v\<close> on an object: an own property keeps its place, a new one goes last. The
  handler assigns to \<^verbatim>\<open>parsed\<close> only after it has read a property from it, so to an object.
\<close>

fun assign :: "string \<Rightarrow> json \<Rightarrow> json \<Rightarrow> json" where
  "assign k v (JObj kvs) = JObj (AList.update k v kvs)"
| "assign k v other = other"

text \<open>Truthiness of a value, as \<^verbatim>\<open>x ? a : b\<close> and \<^verbatim>\<open>if (x)\<close> test it.\<close>

fun truthy :: "json \<Rightarrow> bool" where
  "truthy JNull = False"
| "truthy (JBool b) = b"
| "truthy (JNum t) = (t \<noteq> ''0'')"
| "truthy (JStr s) = (s \<noteq> [])"
| "truthy (JArr xs) = True"
| "truthy (JObj kvs) = True"

text \<open>
  \<^verbatim>\<open>String(v)\<close>. An array is the join of its elements with commas, \<^verbatim>\<open>null\<close> elements
  giving the empty text. An object is \<^verbatim>\<open>[object Object]\<close>, unless it has a property
  \<^verbatim>\<open>toString\<close> of its own: that is a JSON value and no function, and the conversion throws
  a \<^verbatim>\<open>TypeError\<close>.
\<close>

fun joinComma :: "string list \<Rightarrow> string" where
  "joinComma [] = []"
| "joinComma [s] = s"
| "joinComma (s # t # ts) = s @ '','' @ joinComma (t # ts)"

fun jsString :: "json \<Rightarrow> exn + string"
  and jsElements :: "json list \<Rightarrow> exn + string list" where
  "jsString JNull = Inr ''null''"
| "jsString (JBool b) = Inr (if b then ''true'' else ''false'')"
| "jsString (JNum t) = Inr t"
| "jsString (JStr s) = Inr s"
| "jsString (JArr xs) =
     (case jsElements xs of Inl e \<Rightarrow> Inl e | Inr ts \<Rightarrow> Inr (joinComma ts))"
| "jsString (JObj kvs) =
     (if ''toString'' \<in> fst ` set kvs then Inl TypeError else Inr ''[object Object]'')"
| "jsElements [] = Inr []"
| "jsElements (x # xs) =
     (case (if x = JNull then Inr [] else jsString x) of
        Inl e \<Rightarrow> Inl e
      | Inr t \<Rightarrow> (case jsElements xs of Inl e \<Rightarrow> Inl e | Inr ts \<Rightarrow> Inr (t # ts)))"

text \<open>\<^verbatim>\<open>xs.map(f)\<close> with a callback that may throw: the first exception ends the map.\<close>

fun mapE :: "('a \<Rightarrow> exn + 'b) \<Rightarrow> 'a list \<Rightarrow> exn + 'b list" where
  "mapE f [] = Inr []"
| "mapE f (x # xs) =
     (case f x of
        Inl e \<Rightarrow> Inl e
      | Inr y \<Rightarrow> (case mapE f xs of Inl e \<Rightarrow> Inl e | Inr ys \<Rightarrow> Inr (y # ys)))"

text \<open>\<^verbatim>\<open>String(x).trim()\<close>.\<close>

definition trimmedText :: "json \<Rightarrow> exn + string" where
  "trimmedText x = (case jsString x of Inl e \<Rightarrow> Inl e | Inr s \<Rightarrow> Inr (trim s))"

section \<open>Retrying transport\<close>

text \<open>
  \<^verbatim>\<open>
  async function fwFetchWithRetry(url: string, init: RequestInit, tries = 3) {
    let lastErr: string | undefined;
    for (let i = 0; i < tries; i++) {
      const res = await fetch(url, init);
      if (res.ok) return res;
      if (res.status === 429 || (res.status >= 500 && res.status < 600)) {
        const wait = 300 * Math.pow(2, i);
        await new Promise((r) => setTimeout(r, wait));
        lastErr = await res.text();
        continue;
      }
      return res;
    }
    throw new Error(typeof lastErr === "string" ? lastErr : "Fireworks retry failed");
  }
  \<close>
  A response is its status and the text of its body. The provider is the sequence of
  the outcomes of the calls of \<^verbatim>\<open>fetch\<close>, the \<open>i\<close>-th call giving \<open>fetch i\<close>: a response
  or a rejection. The log records what a test double of \<^verbatim>\<open>fetch\<close> and of the timer would:
  the number of calls made and the delays waited, in milliseconds, in order.
\<close>

record response =
  status :: nat
  body :: string

definition ok :: "response \<Rightarrow> bool" where
  "ok res = (200 \<le> status res \<and> status res \<le> 299)"

definition retryable :: "response \<Rightarrow> bool" where
  "retryable res = (status res = 429 \<or> (status res \<ge> 500 \<and> status res < 600))"

record log =
  calls :: nat
  delays :: "nat list"

function fwLoop ::
  "(nat \<Rightarrow> exn + response) \<Rightarrow> nat \<Rightarrow> nat \<Rightarrow> string option \<Rightarrow> log \<Rightarrow> (exn + response) \<times> log"
where
  "fwLoop fetch tries i lastErr l =
     (if i < tries then
        (case fetch i of
           Inl e \<Rightarrow> (Inl e, l\<lparr>calls := Suc (calls l)\<rparr>)
         | Inr res \<Rightarrow>
             if ok res then (Inr res, l\<lparr>calls := Suc (calls l)\<rparr>)
             else if retryable res then
               fwLoop fetch tries (Suc i) (Some (body res))
                 (l\<lparr>calls := Suc (calls l), delays := delays l @ [300 * 2 ^ i]\<rparr>)
             else (Inr res, l\<lparr>calls := Suc (calls l)\<rparr>))
      else
        (Inl (Error (case lastErr of Some t \<Rightarrow> t | None \<Rightarrow> ''Fireworks retry failed'')), l))"
  by pat_completeness auto
termination
  by (relation "measure (\<lambda>(fetch, tries, i, lastErr, l). tries - i)") auto

definition fwFetchWithRetry :: "(nat \<Rightarrow> exn + response) \<Rightarrow> nat \<Rightarrow> (exn + response) \<times> log" where
  "fwFetchWithRetry fetch tries = fwLoop fetch tries 0 None \<lparr>calls = 0, delays = []\<rparr>"

section \<open>Response extraction\<close>

text \<open>
  \<^verbatim>\<open>data?.choices?.[0]?.message?.content ?? ""\<close>, then \<^verbatim>\<open>raw.match(...)\<close>, which only a
  string has: any other value that is neither \<^verbatim>\<open>null\<close> nor \<^verbatim>\<open>undefined\<close> makes the call
  a \<^verbatim>\<open>TypeError\<close>.
\<close>

definition content :: "json \<Rightarrow> json option" where
  "content data =
     optDot (optDot (optFirst (optDot (Some data) ''choices'')) ''message'') ''content''"

definition completion :: "json \<Rightarrow> exn + string" where
  "completion data =
     (case content data of
        None \<Rightarrow> Inr []
      | Some JNull \<Rightarrow> Inr []
      | Some (JStr raw) \<Rightarrow> Inr raw
      | Some other \<Rightarrow> Inl TypeError)"

text \<open>
  \<^verbatim>\<open>
  const match = raw.match(/\{[\s\S]*\}$/);
  if (match) raw = match[0];
  \<close>
  The expression has no flag, so \<^verbatim>\<open>$\<close> is the end of the text and \<^verbatim>\<open>[\s\S]\<close> is any
  character. A match starts at an opening brace and ends with a closing brace that is
  the last character of the text; \<^verbatim>\<open>match\<close> returns the leftmost one, which starts at the
  first opening brace of the text. Without a match the text is left as it is.
\<close>

definition matchObject :: "string \<Rightarrow> string option" where
  "matchObject raw =
     (if raw \<noteq> [] \<and> last raw = CHR ''}'' \<and> CHR ''{'' \<in> set raw
      then Some (dropWhile (\<lambda>c. c \<noteq> CHR ''{'') raw) else None)"

definition extractObject :: "string \<Rightarrow> string" where
  "extractObject raw = (case matchObject raw of Some m \<Rightarrow> m | None \<Rightarrow> raw)"

section \<open>Validation and normalisation\<close>

text \<open>
  What the handler answers: \<^verbatim>\<open>NextResponse.json(parsed)\<close> is \<open>Success parsed\<close> (status
  200), and \<^verbatim>\<open>NextResponse.json({ error: ... }, { status })\<close> is \<open>Failure status f\<close> with
  \<^item> \<open>MissingPrompt\<close> for \<^verbatim>\<open>{ error: "Missing prompt" }\<close>,
  \<^item> \<open>MissingKey\<close> for \<^verbatim>\<open>{ error: "Missing FIREWORKS_API_KEY" }\<close>,
  \<^item> \<open>FireworksError details\<close> for \<^verbatim>\<open>{ error: "Fireworks error", details }\<close>,
  \<^item> \<open>InvalidJSON raw\<close> for \<^verbatim>\<open>{ error: "Invalid JSON from model", raw }\<close>,
  \<^item> \<open>LandingShapeInvalid parsed\<close> for \<^verbatim>\<open>{ error: "Landing shape invalid", parsed }\<close>,
  \<^item> \<open>RecipeShapeInvalid parsed\<close> for \<^verbatim>\<open>{ error: "Recipe shape invalid", parsed }\<close>,
  \<^item> \<open>UnknownMode parsed\<close> for \<^verbatim>\<open>{ error: "Unknown mode", parsed }\<close>,
  \<^item> \<open>Uncaught e\<close> for the \<^verbatim>\<open>{ error: err.message }\<close> of the \<^verbatim>\<open>catch\<close> block.
\<close>

datatype failure =
    MissingPrompt
  | MissingKey
  | FireworksError string
  | InvalidJSON string
  | LandingShapeInvalid json
  | RecipeShapeInvalid json
  | UnknownMode json
  | Uncaught exn

datatype reply = Success json | Failure nat failure

text \<open>
  \<^verbatim>\<open>
  parsed.sections = parsed.sections.slice(0, 8).map((s) => {
    const title = s.title.toUpperCase().trim();
    const url = s.url?.startsWith("/") ? s.url : `/recipes/${slugify(title)}`;
    return { title, teaser: s.teaser?.trim() ?? "", url };
  });
  \<close>
  Only a string has \<^verbatim>\<open>toUpperCase\<close>, \<^verbatim>\<open>startsWith\<close> and \<^verbatim>\<open>trim\<close>: on a value of another
  type the call is a \<^verbatim>\<open>TypeError\<close>, and so is the read of \<^verbatim>\<open>toUpperCase\<close> from an absent
  or \<^verbatim>\<open>null\<close> title.
\<close>

definition sectionTitle :: "json \<Rightarrow> exn + string" where
  "sectionTitle s =
     (case dot s ''title'' of
        Inl e \<Rightarrow> Inl e
      | Inr (Some (JStr t)) \<Rightarrow> Inr (trim (toUpperCase t))
      | Inr other \<Rightarrow> Inl TypeError)"

definition sectionUrl :: "json \<Rightarrow> string \<Rightarrow> exn + string" where
  "sectionUrl s title =
     (case getProp ''url'' s of
        None \<Rightarrow> Inr (''/recipes/'' @ slugify title)
      | Some JNull \<Rightarrow> Inr (''/recipes/'' @ slugify title)
      | Some (JStr u) \<Rightarrow> Inr (if startsWithSlash u then u else ''/recipes/'' @ slugify title)
      | Some other \<Rightarrow> Inl TypeError)"

definition sectionTeaser :: "json \<Rightarrow> exn + string" where
  "sectionTeaser s =
     (case getProp ''teaser'' s of
        None \<Rightarrow> Inr []
      | Some JNull \<Rightarrow> Inr []
      | Some (JStr t) \<Rightarrow> Inr (trim t)
      | Some other \<Rightarrow> Inl TypeError)"

definition normSection :: "json \<Rightarrow> exn + json" where
  "normSection s =
     (case sectionTitle s of
        Inl e \<Rightarrow> Inl e
      | Inr title \<Rightarrow>
          (case sectionUrl s title of
             Inl e \<Rightarrow> Inl e
           | Inr url \<Rightarrow>
               (case sectionTeaser s of
                  Inl e \<Rightarrow> Inl e
                | Inr teaser \<Rightarrow>
                    Inr (JObj [(''title'', JStr title), (''teaser'', JStr teaser),
                               (''url'', JStr url)]))))"

text \<open>
  The landing branch, entered with \<^verbatim>\<open>parsed.mode === "landing"\<close>:
  \<^verbatim>\<open>
  if (typeof parsed.intro !== "string" || !Array.isArray(parsed.sections)) {
    return NextResponse.json({ error: "Landing shape invalid", parsed }, { status: 502 });
  }
  parsed.sections = parsed.sections.slice(0, 8).map(...);
  return NextResponse.json(parsed);
  \<close>
\<close>

definition landing :: "json \<Rightarrow> exn + reply" where
  "landing parsed =
     (case (getProp ''intro'' parsed, getProp ''sections'' parsed) of
        (Some (JStr intro), Some (JArr sections)) \<Rightarrow>
          (case mapE normSection (take 8 sections) of
             Inl e \<Rightarrow> Inl e
           | Inr ss \<Rightarrow> Inr (Success (assign ''sections'' (JArr ss) parsed)))
      | other \<Rightarrow> Inr (Failure 502 (LandingShapeInvalid parsed)))"

text \<open>
  \<^verbatim>\<open>
  parsed.ingredients = parsed.ingredients.map((g: IngredientGroup) => ({
    group: g.group ? String(g.group).trim() : undefined,
    items: Array.isArray(g.items)
      ? g.items.map((i: string) => String(i).trim()).filter(Boolean)
      : [],
  }));
  \<close>
  \<^verbatim>\<open>filter(Boolean)\<close> keeps the strings that are not empty. A property whose value is
  \<^verbatim>\<open>undefined\<close> is left out when the reply is written as JSON, so the group object of the
  reply has no \<^verbatim>\<open>group\<close> then.
\<close>

definition textList :: "json list \<Rightarrow> exn + string list" where
  "textList xs = mapE trimmedText xs"

definition nonEmpty :: "string list \<Rightarrow> string list" where
  "nonEmpty ts = filter (\<lambda>t. t \<noteq> []) ts"

definition groupName :: "json \<Rightarrow> exn + string option" where
  "groupName g =
     (case dot g ''group'' of
        Inl e \<Rightarrow> Inl e
      | Inr None \<Rightarrow> Inr None
      | Inr (Some v) \<Rightarrow>
          if truthy v then
            (case trimmedText v of Inl e \<Rightarrow> Inl e | Inr t \<Rightarrow> Inr (Some t))
          else Inr None)"

definition groupItems :: "json \<Rightarrow> exn + string list" where
  "groupItems g =
     (case getProp ''items'' g of
        Some (JArr is) \<Rightarrow>
          (case textList is of Inl e \<Rightarrow> Inl e | Inr ts \<Rightarrow> Inr (nonEmpty ts))
      | other \<Rightarrow> Inr [])"

definition normGroup :: "json \<Rightarrow> exn + json" where
  "normGroup g =
     (case groupName g of
        Inl e \<Rightarrow> Inl e
      | Inr name \<Rightarrow>
          (case groupItems g of
             Inl e \<Rightarrow> Inl e
           | Inr items \<Rightarrow>
               Inr (JObj ((case name of Some t \<Rightarrow> [(''group'', JStr t)] | None \<Rightarrow> []) @
                          [(''items'', JArr (map JStr items))]))))"

text \<open>
  \<^verbatim>\<open>
  if (parsed.intro) parsed.intro = String(parsed.intro).trim();
  \<close>
\<close>

definition normIntro :: "json \<Rightarrow> exn + json" where
  "normIntro parsed =
     (case getProp ''intro'' parsed of
        None \<Rightarrow> Inr parsed
      | Some v \<Rightarrow>
          if truthy v then
            (case trimmedText v of
               Inl e \<Rightarrow> Inl e
             | Inr t \<Rightarrow> Inr (assign ''intro'' (JStr t) parsed))
          else Inr parsed)"

text \<open>
  \<^verbatim>\<open>
  parsed.used_ingredients = (parsed.used_ingredients ?? []).map((s) => String(s).trim());
  \<close>
  and the same for \<^verbatim>\<open>suggested_additions\<close>. Only an array has \<^verbatim>\<open>map\<close>.
\<close>

definition normTexts :: "string \<Rightarrow> json \<Rightarrow> exn + json" where
  "normTexts k parsed =
     (case (case getProp k parsed of
              None \<Rightarrow> Inr []
            | Some JNull \<Rightarrow> Inr []
            | Some (JArr xs) \<Rightarrow> textList xs
            | Some other \<Rightarrow> Inl TypeError) of
        Inl e \<Rightarrow> Inl e
      | Inr ts \<Rightarrow> Inr (assign k (JArr (map JStr ts)) parsed))"

text \<open>
  The recipe branch, entered with \<^verbatim>\<open>parsed.mode === "recipe"\<close>:
  \<^verbatim>\<open>
  if (typeof parsed.title !== "string" || !Array.isArray(parsed.ingredients) ||
      !Array.isArray(parsed.steps)) {
    return NextResponse.json({ error: "Recipe shape invalid", parsed }, { status: 502 });
  }
  parsed.title = parsed.title.trim();
  parsed.ingredients = parsed.ingredients.map(...);
  parsed.steps = parsed.steps.map((s: string) => String(s).trim()).filter(Boolean);
  if (parsed.intro) parsed.intro = String(parsed.intro).trim();
  parsed.used_ingredients = ...;
  parsed.suggested_additions = ...;
  return NextResponse.json(parsed);
  \<close>
\<close>

definition recipe :: "json \<Rightarrow> exn + reply" where
  "recipe parsed =
     (case (getProp ''title'' parsed, getProp ''ingredients'' parsed, getProp ''steps'' parsed) of
        (Some (JStr title), Some (JArr ingredients), Some (JArr steps)) \<Rightarrow>
          (case mapE normGroup ingredients of
             Inl e \<Rightarrow> Inl e
           | Inr gs \<Rightarrow>
               (case textList steps of
                  Inl e \<Rightarrow> Inl e
                | Inr ts \<Rightarrow>
                    (case normIntro
                            (assign ''steps'' (JArr (map JStr (nonEmpty ts)))
                              (assign ''ingredients'' (JArr gs)
                                (assign ''title'' (JStr (trim title)) parsed))) of
                       Inl e \<Rightarrow> Inl e
                     | Inr p1 \<Rightarrow>
                         (case normTexts ''used_ingredients'' p1 of
                            Inl e \<Rightarrow> Inl e
                          | Inr p2 \<Rightarrow>
                              (case normTexts ''suggested_additions'' p2 of
                                 Inl e \<Rightarrow> Inl e
                               | Inr p3 \<Rightarrow> Inr (Success p3))))))
      | other \<Rightarrow> Inr (Failure 502 (RecipeShapeInvalid parsed)))"

text \<open>
  The validator and normaliser, lines 179 to 233 of the handler: the two branches, and
  \<^verbatim>\<open>{ error: "Unknown mode", parsed }\<close> with status 502 for any other value. The read of
  \<^verbatim>\<open>parsed.mode\<close> is a \<^verbatim>\<open>TypeError\<close> when the model's JSON is \<^verbatim>\<open>null\<close>.
\<close>

definition normalizePayload :: "json \<Rightarrow> exn + reply" where
  "normalizePayload parsed =
     (case dot parsed ''mode'' of
        Inl e \<Rightarrow> Inl e
      | Inr mode \<Rightarrow>
          if mode = Some (JStr ''landing'') then landing parsed
          else if mode = Some (JStr ''recipe'') then recipe parsed
          else Inr (Failure 502 (UnknownMode parsed)))"

section \<open>Request handler\<close>

text \<open>
  The handler after the provider has answered, lines 155 to 233. \<open>parse\<close> is the
  platform's \<^verbatim>\<open>JSON.parse\<close>, \<open>None\<close> being its \<^verbatim>\<open>SyntaxError\<close>; \<^verbatim>\<open>fwRes.json()\<close> parses the
  body of the response with it.
\<close>

definition answer :: "(string \<Rightarrow> json option) \<Rightarrow> response \<Rightarrow> exn + reply" where
  "answer parse fwRes =
     (if \<not> ok fwRes then Inr (Failure 502 (FireworksError (body fwRes)))
      else
        (case parse (body fwRes) of
           None \<Rightarrow> Inl SyntaxError
         | Some data \<Rightarrow>
             (case completion data of
                Inl e \<Rightarrow> Inl e
              | Inr raw \<Rightarrow>
                  (case parse (extractObject raw) of
                     None \<Rightarrow> Inr (Failure 502 (InvalidJSON (extractObject raw)))
                   | Some parsed \<Rightarrow> normalizePayload parsed))))"

text \<open>
  \<^verbatim>\<open>POST\<close>. The request is the outcome of \<^verbatim>\<open>req.json()\<close>, and \<open>apiKey\<close> is
  \<^verbatim>\<open>process.env.FIREWORKS_API_KEY\<close>. Destructuring \<^verbatim>\<open>null\<close> is a \<^verbatim>\<open>TypeError\<close>. The
  provider is the sequence of outcomes \<open>fetch\<close> described above, whatever request is
  sent to it: the text of the prompt and the model identifier reach the provider only.
  Every exception ends in the \<^verbatim>\<open>catch\<close> block, which answers with status 500.
\<close>

definition POST ::
  "(string \<Rightarrow> json option) \<Rightarrow> exn + json \<Rightarrow> string option \<Rightarrow> (nat \<Rightarrow> exn + response) \<Rightarrow> reply"
where
  "POST parse req apiKey fetch =
     (case
        (case req of
           Inl e \<Rightarrow> Inl e
         | Inr b \<Rightarrow>
             (case dot b ''prompt'' of
                Inl e \<Rightarrow> Inl e
              | Inr prompt \<Rightarrow>
                  if \<not> (case prompt of Some (JStr p) \<Rightarrow> p \<noteq> [] | other \<Rightarrow> False)
                  then Inr (Failure 400 MissingPrompt)
                  else if \<not> (case apiKey of Some k \<Rightarrow> k \<noteq> [] | None \<Rightarrow> False)
                  then Inr (Failure 500 MissingKey)
                  else
                    (case fst (fwFetchWithRetry fetch 3) of
                       Inl e \<Rightarrow> Inl e
                     | Inr fwRes \<Rightarrow> answer parse fwRes))) of
        Inl e \<Rightarrow> Failure 500 (Uncaught e)
      | Inr r \<Rightarrow> r)"

section \<open>A reader for JSON texts\<close>

text \<open>
  \<^verbatim>\<open>JSON.parse\<close> belongs to the platform, and the handler above takes it as an argument.
  For the examples a reader of the JSON grammar (ECMA-404) stands for it: white space is
  space, tab, line feed and carriage return; a text is one value; a later property of
  the same name replaces the value of the earlier one. Two conversions of the platform
  are outside this model. The reader takes the first as an argument: \<open>numText\<close> gives, for
  a number literal, the text \<^verbatim>\<open>String(n)\<close> of the number read. For the second, an escape
  \<^verbatim>\<open>\uXXXX\<close> is read when it names a character of the 8-bit text of this model, and a
  text with another escape is outside what the reader stands for (it is rejected).
\<close>

datatype token =
    LBrace | RBrace | LBracket | RBracket | Colon | Comma
  | TStr string | TNum string | TWord string

datatype scan =
    Idle
  | InStr string
  | InEsc string
  | InHex string "nat list"
  | InNum string
  | InWord string

definition hexVal :: "char \<Rightarrow> nat option" where
  "hexVal c =
     map_of (zip ''0123456789abcdef'' [0 ..< 16] @ zip ''ABCDEF'' [10 ..< 16]) c"

definition escaped :: "char \<Rightarrow> char option" where
  "escaped c =
     map_of [(CHR 0x22, CHR 0x22), (CHR 0x5C, CHR 0x5C), (CHR ''/'', CHR ''/''),
             (CHR ''b'', CHR 0x08), (CHR ''f'', CHR 0x0C), (CHR ''n'', CHR 0x0A),
             (CHR ''r'', CHR 0x0D), (CHR ''t'', CHR 0x09)] c"

definition isDigit :: "char \<Rightarrow> bool" where
  "isDigit c = (c \<in> set digits)"

definition numberChar :: "char \<Rightarrow> bool" where
  "numberChar c = (isDigit c \<or> c \<in> set ''+-.eE'')"

definition wordChar :: "char \<Rightarrow> bool" where
  "wordChar c = (c \<in> set lowers \<or> c \<in> set uppers)"

text \<open>The number grammar: \<^verbatim>\<open>-? (0 | [1-9][0-9]*) (. [0-9]+)? ([eE] [+-]? [0-9]+)?\<close>.\<close>

definition validExp :: "string \<Rightarrow> bool" where
  "validExp r =
     (case r of
        [] \<Rightarrow> True
      | e # ds \<Rightarrow>
          (e = CHR ''e'' \<or> e = CHR ''E'') \<and>
          (let ds' = (case ds of [] \<Rightarrow> [] | d # t \<Rightarrow> if d = CHR ''+'' \<or> d = CHR ''-'' then t else ds)
           in ds' \<noteq> [] \<and> list_all isDigit ds'))"

definition validFrac :: "string \<Rightarrow> bool" where
  "validFrac r =
     (case r of
        [] \<Rightarrow> True
      | p # ds \<Rightarrow>
          if p = CHR ''.'' then
            (case ds of [] \<Rightarrow> False | d # t \<Rightarrow> isDigit d \<and> validExp (dropWhile isDigit t))
          else validExp r)"

definition validNumber :: "string \<Rightarrow> bool" where
  "validNumber s =
     (case (case s of [] \<Rightarrow> [] | m # t \<Rightarrow> if m = CHR ''-'' then t else s) of
        [] \<Rightarrow> False
      | d # t \<Rightarrow>
          if d = CHR ''0'' then validFrac t
          else isDigit d \<and> validFrac (dropWhile isDigit t))"

text \<open>
  The scanner reads one character at a time. \<open>scanIdle\<close> is the step between tokens;
  \<open>scanStep\<close> is the step in any state and gives the tokens completed by the character
  and the next state, or nothing when the text is no JSON.
\<close>

definition scanIdle :: "char \<Rightarrow> (token list \<times> scan) option" where
  "scanIdle c =
     (if c \<in> {CHR 0x20, CHR 0x09, CHR 0x0A, CHR 0x0D} then Some ([], Idle)
      else if c = CHR ''{'' then Some ([LBrace], Idle)
      else if c = CHR ''}'' then Some ([RBrace], Idle)
      else if c = CHR ''['' then Some ([LBracket], Idle)
      else if c = CHR '']'' then Some ([RBracket], Idle)
      else if c = CHR '':'' then Some ([Colon], Idle)
      else if c = CHR '','' then Some ([Comma], Idle)
      else if c = CHR 0x22 then Some ([], InStr [])
      else if c = CHR ''-'' \<or> isDigit c then Some ([], InNum [c])
      else if wordChar c then Some ([], InWord [c])
      else None)"

definition after :: "token \<Rightarrow> char \<Rightarrow> (token list \<times> scan) option" where
  "after t c = (case scanIdle c of None \<Rightarrow> None | Some (ts, st) \<Rightarrow> Some (t # ts, st))"

fun scanStep :: "scan \<Rightarrow> char \<Rightarrow> (token list \<times> scan) option" where
  "scanStep Idle c = scanIdle c"
| "scanStep (InStr acc) c =
     (if c = CHR 0x22 then Some ([TStr (rev acc)], Idle)
      else if c = CHR 0x5C then Some ([], InEsc acc)
      else if (of_char c :: nat) < 32 then None
      else Some ([], InStr (c # acc)))"
| "scanStep (InEsc acc) c =
     (if c = CHR ''u'' then Some ([], InHex acc [])
      else (case escaped c of None \<Rightarrow> None | Some d \<Rightarrow> Some ([], InStr (d # acc))))"
| "scanStep (InHex acc hs) c =
     (case hexVal c of
        None \<Rightarrow> None
      | Some h \<Rightarrow>
          if length hs < 3 then Some ([], InHex acc (hs @ [h]))
          else
            (let n = foldl (\<lambda>a d. 16 * a + d) 0 (hs @ [h])
             in if n < 256 then Some ([], InStr (char_of n # acc)) else None))"
| "scanStep (InNum acc) c =
     (if numberChar c then Some ([], InNum (c # acc))
      else if validNumber (rev acc) then after (TNum (rev acc)) c
      else None)"
| "scanStep (InWord acc) c =
     (if wordChar c then Some ([], InWord (c # acc)) else after (TWord (rev acc)) c)"

fun scanEnd :: "scan \<Rightarrow> token list option" where
  "scanEnd Idle = Some []"
| "scanEnd (InNum acc) = (if validNumber (rev acc) then Some [TNum (rev acc)] else None)"
| "scanEnd (InWord acc) = Some [TWord (rev acc)]"
| "scanEnd other = None"

fun scanAll :: "scan \<Rightarrow> string \<Rightarrow> token list option" where
  "scanAll st [] = scanEnd st"
| "scanAll st (c # cs) =
     (case scanStep st c of
        None \<Rightarrow> None
      | Some (ts, st') \<Rightarrow> (case scanAll st' cs of None \<Rightarrow> None | Some us \<Rightarrow> Some (ts @ us)))"

text \<open>
  The tokens are read with a stack of the arrays and objects that are open: an array
  with its elements so far (last first), an object with its properties so far and the
  name waiting for its value. \<open>want\<close> is what may come next.
\<close>

datatype frame = ArrF "json list" | ObjF "(string \<times> json) list" string

datatype want =
    Value
  | ValueOrClose
  | NameOrClose
  | Name
  | ColonNext
  | CommaOrClose
  | Done json

fun scalar :: "(string \<Rightarrow> string) \<Rightarrow> token \<Rightarrow> json option" where
  "scalar numText (TStr s) = Some (JStr s)"
| "scalar numText (TNum l) = Some (JNum (numText l))"
| "scalar numText (TWord w) =
     (if w = ''true'' then Some (JBool True)
      else if w = ''false'' then Some (JBool False)
      else if w = ''null'' then Some JNull
      else None)"
| "scalar numText other = None"

text \<open>A value is complete: it is the text's value, or goes into the innermost open frame.\<close>

fun put :: "json \<Rightarrow> frame list \<Rightarrow> frame list \<times> want" where
  "put v [] = ([], Done v)"
| "put v (ArrF acc # fs) = (ArrF (v # acc) # fs, CommaOrClose)"
| "put v (ObjF kvs k # fs) = (ObjF (AList.update k v kvs) k # fs, CommaOrClose)"

definition openValue :: "(string \<Rightarrow> string) \<Rightarrow> token \<Rightarrow> frame list \<Rightarrow> (frame list \<times> want) option" where
  "openValue numText t fs =
     (if t = LBracket then Some (ArrF [] # fs, ValueOrClose)
      else if t = LBrace then Some (ObjF [] [] # fs, NameOrClose)
      else (case scalar numText t of None \<Rightarrow> None | Some v \<Rightarrow> Some (put v fs)))"

definition closeFrame :: "token \<Rightarrow> frame list \<Rightarrow> (frame list \<times> want) option" where
  "closeFrame t fs =
     (case fs of
        ArrF acc # fs' \<Rightarrow> if t = RBracket then Some (put (JArr (rev acc)) fs') else None
      | ObjF kvs k # fs' \<Rightarrow> if t = RBrace then Some (put (JObj kvs) fs') else None
      | [] \<Rightarrow> None)"

definition openName :: "token \<Rightarrow> frame list \<Rightarrow> (frame list \<times> want) option" where
  "openName t fs =
     (case (t, fs) of
        (TStr k, ObjF kvs k0 # fs') \<Rightarrow> Some (ObjF kvs k # fs', ColonNext)
      | other \<Rightarrow> None)"

fun readStep :: "(string \<Rightarrow> string) \<Rightarrow> want \<Rightarrow> token \<Rightarrow> frame list \<Rightarrow> (frame list \<times> want) option" where
  "readStep numText Value t fs = openValue numText t fs"
| "readStep numText ValueOrClose t fs =
     (if t = RBracket then closeFrame t fs else openValue numText t fs)"
| "readStep numText NameOrClose t fs =
     (if t = RBrace then closeFrame t fs else openName t fs)"
| "readStep numText Name t fs = openName t fs"
| "readStep numText ColonNext t fs = (if t = Colon then Some (fs, Value) else None)"
| "readStep numText CommaOrClose t fs =
     (if t = Comma then
        (case fs of
           ArrF acc # fs' \<Rightarrow> Some (fs, Value)
         | ObjF kvs k # fs' \<Rightarrow> Some (fs, Name)
         | [] \<Rightarrow> None)
      else closeFrame t fs)"
| "readStep numText (Done v) t fs = None"

fun readAll :: "(string \<Rightarrow> string) \<Rightarrow> want \<Rightarrow> frame list \<Rightarrow> token list \<Rightarrow> json option" where
  "readAll numText w fs [] = (case w of Done v \<Rightarrow> Some v | other \<Rightarrow> None)"
| "readAll numText w fs (t # ts) =
     (case readStep numText w t fs of
        None \<Rightarrow> None
      | Some (fs', w') \<Rightarrow> readAll numText w' fs' ts)"

definition readJSON :: "(string \<Rightarrow> string) \<Rightarrow> string \<Rightarrow> json option" where
  "readJSON numText s =
     (case scanAll Idle s of None \<Rightarrow> None | Some ts \<Rightarrow> readAll numText Value [] ts)"

text \<open>
  The text of an integer literal of at most 15 digits is the literal itself, but for
  \<^verbatim>\<open>-0\<close>. The examples below have no other number, and none has a number at all where
  the handler looks.
\<close>

definition plainNumber :: "string \<Rightarrow> string" where
  "plainNumber l = (if l = ''-0'' then ''0'' else l)"

text \<open>A provider that answers the calls of \<^verbatim>\<open>fetch\<close> with the given responses, in order.\<close>

definition replay :: "response list \<Rightarrow> nat \<Rightarrow> exn + response" where
  "replay rs i = (if i < length rs then Inr (rs ! i) else Inl (FetchFailed ''no response''))"

section \<open>Notions used in the statements\<close>

text \<open>The HTTP status of a reply: \<^verbatim>\<open>NextResponse.json\<close> answers 200 unless told otherwise.\<close>

fun statusOf :: "reply \<Rightarrow> nat" where
  "statusOf (Success payload) = 200"
| "statusOf (Failure st f) = st"

text \<open>\<^verbatim>\<open>typeof v === "string"\<close>, and a value that is a string, \<^verbatim>\<open>null\<close> or absent.\<close>

fun isText :: "json option \<Rightarrow> bool" where
  "isText (Some (JStr t)) = True"
| "isText v = False"

definition optText :: "json option \<Rightarrow> bool" where
  "optText v = (v = None \<or> v = Some JNull \<or> isText v)"

text \<open>
  A section as the type \<^verbatim>\<open>LandingSection\<close> has it, \<^verbatim>\<open>teaser\<close> and \<^verbatim>\<open>url\<close> being allowed
  to be absent or \<^verbatim>\<open>null\<close>, as the handler allows with \<^verbatim>\<open>?.\<close>.
\<close>

definition typedSection :: "json \<Rightarrow> bool" where
  "typedSection s =
     (isText (getProp ''title'' s) \<and> optText (getProp ''teaser'' s) \<and> optText (getProp ''url'' s))"

text \<open>A text that \<^verbatim>\<open>trim()\<close> leaves as it is.\<close>

definition trimmed :: "string \<Rightarrow> bool" where
  "trimmed t = (trim t = t)"

text \<open>A property that is a string with the property \<open>P\<close>.\<close>

fun hasText :: "(string \<Rightarrow> bool) \<Rightarrow> json option \<Rightarrow> bool" where
  "hasText P (Some (JStr t)) = P t"
| "hasText P v = False"





text \<open>
  The body of a provider's answer with the given completion: the completion is written
  as a JSON string (quotes, backslashes and line feeds escaped) at
  \<^verbatim>\<open>choices[0].message.content\<close>.
\<close>

fun quoteChars :: "string \<Rightarrow> string" where
  "quoteChars [] = []"
| "quoteChars (c # cs) =
     (if c = CHR 0x22 then [CHR 0x5C, CHR 0x22]
      else if c = CHR 0x5C then [CHR 0x5C, CHR 0x5C]
      else if c = CHR 0x0A then [CHR 0x5C, CHR ''n'']
      else [c]) @ quoteChars cs"

definition envelope :: "string \<Rightarrow> string" where
  "envelope raw =
     ''{\"choices\":[{\"message\":{\"role\":\"assistant\",\"content\":\"'' @ quoteChars raw @ ''\"}}]}''"

section \<open>Text lemmas\<close>

lemma isSpace_toUpperChar: "isSpace (toUpperChar c) = isSpace c"
  by (simp add: isSpace_def toUpperChar_def lowers_def uppers_def)

lemma isSpace_toLowerChar: "isSpace (toLowerChar c) = isSpace c"
  by (simp add: isSpace_def toLowerChar_def lowers_def uppers_def)


lemma toLowerChar_toUpperChar: "toLowerChar (toUpperChar c) = toLowerChar c"
  by (simp add: toUpperChar_def toLowerChar_def lowers_def uppers_def)

lemma trim_map:
  assumes "\<And>c. isSpace (f c) = isSpace c"
  shows "trim (map f s) = map f (trim s)"
proof -
  have "isSpace \<circ> f = isSpace" using assms by (simp add: fun_eq_iff)
  then show ?thesis by (simp add: trim_def dropWhile_map rev_map)
qed

lemma trim_toUpperCase: "trim (toUpperCase s) = toUpperCase (trim s)"
  by (simp add: toUpperCase_def trim_map isSpace_toUpperChar)

lemma trim_toLowerCase: "trim (toLowerCase s) = toLowerCase (trim s)"
  by (simp add: toLowerCase_def trim_map isSpace_toLowerChar)


lemma toLowerCase_toUpperCase: "toLowerCase (toUpperCase s) = toLowerCase s"
  by (simp add: toUpperCase_def toLowerCase_def toLowerChar_toUpperChar)

lemma trim_fixed_iff:
  "trim s = s \<longleftrightarrow> s = [] \<or> (\<not> isSpace (hd s) \<and> \<not> isSpace (last s))"
proof (cases "s = []")
  case True
  then show ?thesis by (simp add: trim_def)
next
  case False
  show ?thesis
  proof (cases "isSpace (hd s)")
    case True
    have "length (trim s) \<le> length (dropWhile isSpace s)"
      unfolding trim_def using length_dropWhile_le [of isSpace "rev (dropWhile isSpace s)"] by simp
    moreover have "length (dropWhile isSpace s) < length s"
      using False True by (cases s) (auto intro: le_imp_less_Suc length_dropWhile_le)
    ultimately have "trim s \<noteq> s" by auto
    with True False show ?thesis by simp
  next
    case h: False
    then have l: "dropWhile isSpace s = s" by (simp add: dropWhile_eq_self_iff)
    have "trim s = s \<longleftrightarrow> dropWhile isSpace (rev s) = rev s"
      unfolding trim_def l by (metis rev_rev_ident)
    also have "\<dots> \<longleftrightarrow> \<not> isSpace (last s)"
      using False by (simp add: dropWhile_eq_self_iff hd_rev)
    finally show ?thesis using False h by simp
  qed
qed

lemma trim_ends: "trim s = [] \<or> (\<not> isSpace (hd (trim s)) \<and> \<not> isSpace (last (trim s)))"
proof (cases "trim s = []")
  case True
  then show ?thesis by simp
next
  case False
  let ?a = "dropWhile isSpace s"
  let ?b = "dropWhile isSpace (rev ?a)"
  have b: "?b \<noteq> []" using False by (simp add: trim_def)
  have a: "?a \<noteq> []"
  proof
    assume "?a = []"
    then have "?b = []" by (simp only: rev.simps(1) dropWhile.simps(1))
    with b show False by (rule notE)
  qed
  have "\<not> isSpace (hd ?b)" using b by (rule hd_dropWhile)
  then have last: "\<not> isSpace (last (trim s))" by (simp add: trim_def last_rev)
  have ha: "\<not> isSpace (hd ?a)" using a by (rule hd_dropWhile)
  have "last (takeWhile isSpace (rev ?a) @ ?b) = last ?b"
    using b by (rule last_appendR)
  then have "last ?b = last (rev ?a)" by (simp only: takeWhile_dropWhile_id)
  then have "hd (trim s) = hd ?a" by (simp add: trim_def hd_rev last_rev)
  with ha last show ?thesis by simp
qed

lemma trim_trim: "trim (trim s) = trim s"
  using trim_ends [of s] by (simp add: trim_fixed_iff)


section \<open>The retrying transport\<close>

declare fwLoop.simps [simp del]

lemma retryable_not_ok: "retryable res \<Longrightarrow> \<not> ok res"
  by (auto simp: retryable_def ok_def)

lemma fwLoop_returns:
  assumes "k < tries" and "i \<le> k"
    and "\<forall>j. i \<le> j \<and> j < k \<longrightarrow> (\<exists>r. fetch j = Inr r \<and> retryable r)"
    and "fetch k = Inr res" and "ok res \<or> \<not> retryable res"
  shows "fwLoop fetch tries i lastErr l =
           (Inr res, \<lparr>calls = calls l + (k - i) + 1,
                      delays = delays l @ map (\<lambda>j. 300 * 2 ^ j) [i ..< k]\<rparr>)"
  using assms(2,3)
proof (induction "k - i" arbitrary: i lastErr l)
  case 0
  then have "i = k" by simp
  then show ?case
    using assms(1,4,5) by (subst fwLoop.simps) auto
next
  case (Suc n)
  then have lt: "i < k" by simp
  with Suc.prems obtain r where r: "fetch i = Inr r" "retryable r" by auto
  have step: "fwLoop fetch tries i lastErr l =
      fwLoop fetch tries (Suc i) (Some (body r))
        (l\<lparr>calls := Suc (calls l), delays := delays l @ [300 * 2 ^ i]\<rparr>)"
    using lt assms(1) r by (subst fwLoop.simps) (simp add: retryable_not_ok)
  have "n = k - Suc i" using Suc.hyps(2) by simp
  moreover have "Suc i \<le> k" using lt by simp
  moreover have "\<forall>j. Suc i \<le> j \<and> j < k \<longrightarrow> (\<exists>r. fetch j = Inr r \<and> retryable r)"
    using Suc.prems by auto
  ultimately have "fwLoop fetch tries (Suc i) (Some (body r))
        (l\<lparr>calls := Suc (calls l), delays := delays l @ [300 * 2 ^ i]\<rparr>) =
     (Inr res, \<lparr>calls = calls (l\<lparr>calls := Suc (calls l), delays := delays l @ [300 * 2 ^ i]\<rparr>) + (k - Suc i) + 1,
                delays = delays (l\<lparr>calls := Suc (calls l), delays := delays l @ [300 * 2 ^ i]\<rparr>) @ map (\<lambda>j. 300 * 2 ^ j) [Suc i ..< k]\<rparr>)"
    by (rule Suc.hyps(1))
  with step lt show ?case by (simp add: upt_conv_Cons)
qed

lemma fwLoop_exhausted:
  assumes "\<forall>j<tries. fetch j = Inr (r j) \<and> retryable (r j)" and "i < tries"
  shows "fwLoop fetch tries i lastErr l =
           (Inl (Error (body (r (tries - 1)))),
            \<lparr>calls = calls l + (tries - i),
             delays = delays l @ map (\<lambda>j. 300 * 2 ^ j) [i ..< tries]\<rparr>)"
  using assms(2)
proof (induction "tries - i" arbitrary: i lastErr l)
  case 0
  then show ?case by simp
next
  case (Suc n)
  have r: "fetch i = Inr (r i)" "retryable (r i)" using assms(1) Suc.prems by auto
  have step: "fwLoop fetch tries i lastErr l =
      fwLoop fetch tries (Suc i) (Some (body (r i)))
        (l\<lparr>calls := Suc (calls l), delays := delays l @ [300 * 2 ^ i]\<rparr>)"
    using Suc.prems r by (subst fwLoop.simps) (simp add: retryable_not_ok)
  show ?case
  proof (cases "Suc i < tries")
    case True
    have "n = tries - Suc i" using Suc.hyps(2) by simp
    from Suc.hyps(1)[OF this True] step Suc.prems show ?thesis
      by (simp add: upt_conv_Cons)
  next
    case False
    then have e: "Suc i = tries" using Suc.prems by simp
    have "fwLoop fetch tries (Suc i) (Some (body (r i)))
        (l\<lparr>calls := Suc (calls l), delays := delays l @ [300 * 2 ^ i]\<rparr>) =
        (Inl (Error (body (r i))), l\<lparr>calls := Suc (calls l), delays := delays l @ [300 * 2 ^ i]\<rparr>)"
      using e by (subst fwLoop.simps) simp
    with step e show ?thesis by (auto simp: upt_conv_Cons)
  qed
qed

text \<open>
  C5. The transport retries only on a status 429 or 5xx, and waits \<open>300 * 2 ^ i\<close>
  milliseconds after the \<open>i\<close>-th call: when the calls before the \<open>k\<close>-th get retryable
  answers and the \<open>k\<close>-th gets a successful or a non-retryable one, with \<open>k\<close> below the
  number of tries, that answer is returned after \<open>k + 1\<close> calls and the delays
  \<open>300 * 2 ^ 0, ..., 300 * 2 ^ (k - 1)\<close>. When all three calls of the default get
  retryable answers, the delays are 300, 600 and 1200. So 500, 500, 200 returns the 200
  response after three calls and the delays 300 and 600, and a 404 on the first call is
  returned after one call and no delay.
\<close>

theorem C5_retry_policy:
  "(\<forall>fetch tries k res.
      k < tries \<and> (\<forall>j<k. \<exists>r. fetch j = Inr r \<and> retryable r) \<and>
      fetch k = Inr res \<and> (ok res \<or> \<not> retryable res) \<longrightarrow>
      fwFetchWithRetry fetch tries =
        (Inr res, \<lparr>calls = Suc k, delays = map (\<lambda>j. 300 * 2 ^ j) [0 ..< k]\<rparr>))
   \<and> (\<forall>fetch.
        (\<forall>j<3. \<exists>r. fetch j = Inr r \<and> retryable r) \<longrightarrow>
        snd (fwFetchWithRetry fetch 3) = \<lparr>calls = 3, delays = [300, 600, 1200]\<rparr>)
   \<and> (\<forall>b1 b2 b3.
        fwFetchWithRetry
          (replay [\<lparr>status = 500, body = b1\<rparr>, \<lparr>status = 500, body = b2\<rparr>,
                   \<lparr>status = 200, body = b3\<rparr>]) 3 =
        (Inr \<lparr>status = 200, body = b3\<rparr>, \<lparr>calls = 3, delays = [300, 600]\<rparr>))
   \<and> (\<forall>b rest.
        fwFetchWithRetry (replay (\<lparr>status = 404, body = b\<rparr> # rest)) 3 =
        (Inr \<lparr>status = 404, body = b\<rparr>, \<lparr>calls = 1, delays = []\<rparr>))"
proof (intro conjI allI impI)
  fix fetch :: "nat \<Rightarrow> exn + response" and tries k res
  assume a: "k < tries \<and> (\<forall>j<k. \<exists>r. fetch j = Inr r \<and> retryable r) \<and>
      fetch k = Inr res \<and> (ok res \<or> \<not> retryable res)"
  then have "fwLoop fetch tries 0 None \<lparr>calls = 0, delays = []\<rparr> =
      (Inr res, \<lparr>calls = calls \<lparr>calls = 0, delays = []\<rparr> + (k - 0) + 1,
                 delays = delays \<lparr>calls = 0, delays = []\<rparr> @ map (\<lambda>j. 300 * 2 ^ j) [0 ..< k]\<rparr>)"
    by (intro fwLoop_returns) auto
  then show "fwFetchWithRetry fetch tries =
        (Inr res, \<lparr>calls = Suc k, delays = map (\<lambda>j. 300 * 2 ^ j) [0 ..< k]\<rparr>)"
    by (simp add: fwFetchWithRetry_def)
next
  fix fetch :: "nat \<Rightarrow> exn + response"
  assume "\<forall>j<3. \<exists>r. fetch j = Inr r \<and> retryable r"
  then have "\<forall>j. \<exists>r. j < 3 \<longrightarrow> fetch j = Inr r \<and> retryable r" by blast
  from choice [OF this] obtain r where "\<forall>j<3. fetch j = Inr (r j) \<and> retryable (r j)"
    by blast
  from fwLoop_exhausted [OF this, of 0 None "\<lparr>calls = 0, delays = []\<rparr>"]
  show "snd (fwFetchWithRetry fetch 3) = \<lparr>calls = 3, delays = [300, 600, 1200]\<rparr>"
    by (simp add: fwFetchWithRetry_def upt_conv_Cons numeral_3_eq_3)
next
  fix b1 b2 b3
  show "fwFetchWithRetry
          (replay [\<lparr>status = 500, body = b1\<rparr>, \<lparr>status = 500, body = b2\<rparr>,
                   \<lparr>status = 200, body = b3\<rparr>]) 3 =
        (Inr \<lparr>status = 200, body = b3\<rparr>, \<lparr>calls = 3, delays = [300, 600]\<rparr>)"
    by (simp add: fwFetchWithRetry_def fwLoop.simps replay_def ok_def retryable_def)
next
  fix b rest
  show "fwFetchWithRetry (replay (\<lparr>status = 404, body = b\<rparr> # rest)) 3 =
        (Inr \<lparr>status = 404, body = b\<rparr>, \<lparr>calls = 1, delays = []\<rparr>)"
    by (simp add: fwFetchWithRetry_def fwLoop.simps replay_def ok_def retryable_def)
qed


theorem C5_retry_policy_witness:
  "replay [\<lparr>status = 503, body = ''busy''\<rparr>, \<lparr>status = 429, body = ''slow''\<rparr>,
           \<lparr>status = 404, body = ''gone''\<rparr>] 0 = Inr \<lparr>status = 503, body = ''busy''\<rparr> \<and>
   retryable \<lparr>status = 503, body = ''busy''\<rparr> \<and>
   replay [\<lparr>status = 503, body = ''busy''\<rparr>, \<lparr>status = 429, body = ''slow''\<rparr>,
           \<lparr>status = 404, body = ''gone''\<rparr>] 1 = Inr \<lparr>status = 429, body = ''slow''\<rparr> \<and>
   retryable \<lparr>status = 429, body = ''slow''\<rparr> \<and>
   replay [\<lparr>status = 503, body = ''busy''\<rparr>, \<lparr>status = 429, body = ''slow''\<rparr>,
           \<lparr>status = 404, body = ''gone''\<rparr>] 2 = Inr \<lparr>status = 404, body = ''gone''\<rparr> \<and>
   \<not> retryable \<lparr>status = 404, body = ''gone''\<rparr> \<and>
   fwFetchWithRetry
     (replay [\<lparr>status = 503, body = ''busy''\<rparr>, \<lparr>status = 429, body = ''slow''\<rparr>,
              \<lparr>status = 404, body = ''gone''\<rparr>]) 3 =
   (Inr \<lparr>status = 404, body = ''gone''\<rparr>, \<lparr>calls = 3, delays = [300, 600]\<rparr>)"
proof -
  let ?f = "replay [\<lparr>status = 503, body = ''busy''\<rparr>, \<lparr>status = 429, body = ''slow''\<rparr>,
                    \<lparr>status = 404, body = ''gone''\<rparr>]"
  have pre: "\<forall>j<2. \<exists>r. ?f j = Inr r \<and> retryable r"
    by (simp add: replay_def retryable_def less_Suc_eq numeral_2_eq_2)
  have last: "?f 2 = Inr \<lparr>status = 404, body = ''gone''\<rparr>"
    by (simp add: replay_def)
  have stop: "ok \<lparr>status = 404, body = ''gone''\<rparr> \<or> \<not> retryable \<lparr>status = 404, body = ''gone''\<rparr>"
    by (simp add: retryable_def)
  have h: "2 < (3::nat) \<and> (\<forall>j<2. \<exists>r. ?f j = Inr r \<and> retryable r) \<and>
      ?f 2 = Inr \<lparr>status = 404, body = ''gone''\<rparr> \<and>
      (ok \<lparr>status = 404, body = ''gone''\<rparr> \<or> \<not> retryable \<lparr>status = 404, body = ''gone''\<rparr>)"
    using pre last stop by simp
  have "fwFetchWithRetry ?f 3 =
          (Inr \<lparr>status = 404, body = ''gone''\<rparr>,
           \<lparr>calls = Suc 2, delays = map (\<lambda>j. 300 * 2 ^ j) [0 ..< 2]\<rparr>)"
    by (rule C5_retry_policy [THEN conjunct1, rule_format, OF h])
  then show ?thesis by (simp add: upt_conv_Cons numeral_2_eq_2 replay_def retryable_def)
qed

section \<open>The handler around the provider call\<close>

lemma prompt_ok:
  assumes "getProp ''prompt'' b = Some (JStr p)"
  shows "dot b ''prompt'' = Inr (Some (JStr p))"
  using assms by (cases b) simp_all

lemma fwFetch_exhausted:
  assumes "\<forall>j<3. fetch j = Inr (r j) \<and> retryable (r j)"
  shows "fst (fwFetchWithRetry fetch 3) = Inl (Error (body (r 2)))"
  using fwLoop_exhausted [OF assms, of 0 None "\<lparr>calls = 0, delays = []\<rparr>"]
  by (simp add: fwFetchWithRetry_def)

lemma fwFetch_first:
  assumes "fetch 0 = Inr res" and "ok res \<or> \<not> retryable res"
  shows "fst (fwFetchWithRetry fetch 3) = Inr res"
  using fwLoop_returns [of 0 3 0 fetch res None "\<lparr>calls = 0, delays = []\<rparr>"] assms
  by (simp add: fwFetchWithRetry_def)

lemma POST_answered:
  assumes "getProp ''prompt'' b = Some (JStr p)" and "p \<noteq> []" and "k \<noteq> []"
    and "fetch 0 = Inr res" and "ok res \<or> \<not> retryable res"
  shows "POST parse (Inr b) (Some k) fetch =
           (case answer parse res of Inl e \<Rightarrow> Failure 500 (Uncaught e) | Inr r \<Rightarrow> r)"
  using assms(2,3) by (simp add: POST_def prompt_ok [OF assms(1)] fwFetch_first [of fetch res, OF assms(4,5)])

text \<open>
  C2, as amended. When each of the three calls gets a status 429 or 5xx, the transport
  throws an \<^verbatim>\<open>Error\<close> whose message is the body of the last response, and the handler's
  \<^verbatim>\<open>catch\<close> block answers it: the status is 500 (not 502) and the error text is the body of
  the last response.
\<close>

theorem C2_exhausted_retries_answer_500:
  assumes "getProp ''prompt'' b = Some (JStr p)" and "p \<noteq> []" and "k \<noteq> []"
    and "\<forall>j<3. fetch j = Inr (r j) \<and> retryable (r j)"
  shows "POST parse (Inr b) (Some k) fetch = Failure 500 (Uncaught (Error (body (r 2))))"
  using assms(2,3) by (simp add: POST_def prompt_ok [OF assms(1)] fwFetch_exhausted [OF assms(4)])

theorem C2_exhausted_retries_witness:
  "replay [\<lparr>status = 503, body = ''one''\<rparr>, \<lparr>status = 500, body = ''two''\<rparr>,
           \<lparr>status = 429, body = ''three''\<rparr>] 2 = Inr \<lparr>status = 429, body = ''three''\<rparr> \<and>
   retryable \<lparr>status = 503, body = ''one''\<rparr> \<and> retryable \<lparr>status = 500, body = ''two''\<rparr> \<and>
   retryable \<lparr>status = 429, body = ''three''\<rparr> \<and>
   POST (readJSON plainNumber) (Inr (JObj [(''prompt'', JStr ''soup'')])) (Some ''key'')
     (replay [\<lparr>status = 503, body = ''one''\<rparr>, \<lparr>status = 500, body = ''two''\<rparr>,
              \<lparr>status = 429, body = ''three''\<rparr>]) =
     Failure 500 (Uncaught (Error ''three''))"
proof -
  let ?rs = "[\<lparr>status = 503, body = ''one''\<rparr>, \<lparr>status = 500, body = ''two''\<rparr>,
              \<lparr>status = 429, body = ''three''\<rparr>]"
  have h1: "getProp ''prompt'' (JObj [(''prompt'', JStr ''soup'')]) = Some (JStr ''soup'')"
    by simp
  have h2: "''soup'' \<noteq> []" and h3: "''key'' \<noteq> []" by simp_all
  have h4: "\<forall>j<3. replay ?rs j = Inr (?rs ! j) \<and> retryable (?rs ! j)"
    by (simp add: replay_def retryable_def less_Suc_eq numeral_3_eq_3)
  have r1: "replay ?rs 2 = Inr \<lparr>status = 429, body = ''three''\<rparr>"
    by (simp add: replay_def)
  have r2: "retryable \<lparr>status = 503, body = ''one''\<rparr>"
    and r3: "retryable \<lparr>status = 500, body = ''two''\<rparr>"
    and r4: "retryable \<lparr>status = 429, body = ''three''\<rparr>"
    by (simp_all add: retryable_def)
  have "POST (readJSON plainNumber) (Inr (JObj [(''prompt'', JStr ''soup'')])) (Some ''key'')
      (replay ?rs) = Failure 500 (Uncaught (Error (body (?rs ! 2))))"
    by (rule C2_exhausted_retries_answer_500
          [where b = "JObj [(''prompt'', JStr ''soup'')]" and p = "''soup''" and k = "''key''"
             and fetch = "replay ?rs" and r = "\<lambda>j. ?rs ! j" and parse = "readJSON plainNumber",
           OF h1 h2 h3 h4])
  then have c: "POST (readJSON plainNumber) (Inr (JObj [(''prompt'', JStr ''soup'')])) (Some ''key'')
      (replay ?rs) = Failure 500 (Uncaught (Error ''three''))"
    by simp
  show ?thesis
    by (intro conjI r1 r2 r3 r4 c)
qed

text \<open>
  C2 as stated fails: three answers 429 end in a reply of status 500, not 502.
\<close>

theorem C2_counterexample:
  "POST (readJSON plainNumber) (Inr (JObj [(''prompt'', JStr ''soup'')])) (Some ''key'')
     (replay [\<lparr>status = 429, body = ''one''\<rparr>, \<lparr>status = 429, body = ''two''\<rparr>,
              \<lparr>status = 429, body = ''three''\<rparr>])
   = Failure 500 (Uncaught (Error ''three'')) \<and>
   statusOf
     (POST (readJSON plainNumber) (Inr (JObj [(''prompt'', JStr ''soup'')])) (Some ''key'')
        (replay [\<lparr>status = 429, body = ''one''\<rparr>, \<lparr>status = 429, body = ''two''\<rparr>,
                 \<lparr>status = 429, body = ''three''\<rparr>])) \<noteq> 502"
  by (simp add: POST_def fwFetchWithRetry_def fwLoop.simps replay_def ok_def retryable_def)



lemma answer_text:
  assumes "ok res" and "parse (body res) = Some data" and "content data = Some (JStr raw)"
  shows "answer parse res =
           (case parse (extractObject raw) of
              None \<Rightarrow> Inr (Failure 502 (InvalidJSON (extractObject raw)))
            | Some parsed \<Rightarrow> normalizePayload parsed)"
  using assms by (simp add: answer_def completion_def)





lemma answer_no_text:
  assumes "ok res" and "parse (body res) = Some data"
    and "content data = None \<or> content data = Some JNull" and "parse [] = None"
  shows "answer parse res = Inr (Failure 502 (InvalidJSON []))"
  using assms by (auto simp: answer_def completion_def extractObject_def matchObject_def)

lemma answer_other_type:
  assumes "ok res" and "parse (body res) = Some data"
    and "content data = Some v" and "v \<noteq> JNull" and "\<not> isText (Some v)"
  shows "answer parse res = Inl TypeError"
  using assms by (cases v) (simp_all add: answer_def completion_def)

text \<open>
  C4, as amended. When the provider's envelope is valid JSON and has nothing, or
  \<^verbatim>\<open>null\<close>, at \<^verbatim>\<open>choices[0].message.content\<close>, the handler takes the completion to be the
  empty text, which is no JSON: it fails with the same \<^verbatim>\<open>Invalid JSON from model\<close> (raw
  text empty) as for a completion that does not parse, with status 502. There is no
  separate error for a malformed envelope. A content that is present and neither a
  string nor \<^verbatim>\<open>null\<close> makes \<^verbatim>\<open>raw.match\<close> throw, and the handler answers 500.
\<close>

theorem C4_missing_completion_is_invalid_json:
  "(getProp ''prompt'' b = Some (JStr p) \<and> p \<noteq> [] \<and> k \<noteq> [] \<and>
    fetch 0 = Inr res \<and> ok res \<and> parse (body res) = Some data \<and>
    (content data = None \<or> content data = Some JNull) \<and> parse [] = None \<longrightarrow>
      POST parse (Inr b) (Some k) fetch = Failure 502 (InvalidJSON [])) \<and>
   (getProp ''prompt'' b = Some (JStr p) \<and> p \<noteq> [] \<and> k \<noteq> [] \<and>
    fetch 0 = Inr res \<and> ok res \<and> parse (body res) = Some data \<and>
    content data = Some v \<and> v \<noteq> JNull \<and> \<not> isText (Some v) \<longrightarrow>
      POST parse (Inr b) (Some k) fetch = Failure 500 (Uncaught TypeError))"
proof (intro conjI impI)
  assume a: "getProp ''prompt'' b = Some (JStr p) \<and> p \<noteq> [] \<and> k \<noteq> [] \<and>
    fetch 0 = Inr res \<and> ok res \<and> parse (body res) = Some data \<and>
    (content data = None \<or> content data = Some JNull) \<and> parse [] = None"
  then have "answer parse res = Inr (Failure 502 (InvalidJSON []))"
    by (intro answer_no_text) auto
  with a POST_answered [of b p k fetch res parse]
  show "POST parse (Inr b) (Some k) fetch = Failure 502 (InvalidJSON [])" by simp
next
  assume a: "getProp ''prompt'' b = Some (JStr p) \<and> p \<noteq> [] \<and> k \<noteq> [] \<and>
    fetch 0 = Inr res \<and> ok res \<and> parse (body res) = Some data \<and>
    content data = Some v \<and> v \<noteq> JNull \<and> \<not> isText (Some v)"
  then have "answer parse res = Inl TypeError"
    by (intro answer_other_type [of res parse data v]) auto
  with a POST_answered [of b p k fetch res parse]
  show "POST parse (Inr b) (Some k) fetch = Failure 500 (Uncaught TypeError)" by simp
qed

theorem C4_missing_completion_witness:
  "getProp ''prompt'' (JObj [(''prompt'', JStr ''soup'')]) = Some (JStr ''soup'') \<and>
   replay [\<lparr>status = 200, body = ''{\"choices\":[{\"message\":{\"role\":\"assistant\"}}]}''\<rparr>] 0 =
     Inr \<lparr>status = 200, body = ''{\"choices\":[{\"message\":{\"role\":\"assistant\"}}]}''\<rparr> \<and>
   ok \<lparr>status = 200, body = ''{\"choices\":[{\"message\":{\"role\":\"assistant\"}}]}''\<rparr> \<and>
   readJSON plainNumber ''{\"choices\":[{\"message\":{\"role\":\"assistant\"}}]}'' =
     Some (JObj [(''choices'', JArr [JObj [(''message'', JObj [(''role'', JStr ''assistant'')])]])]) \<and>
   content (JObj [(''choices'', JArr [JObj [(''message'', JObj [(''role'', JStr ''assistant'')])]])]) = None \<and>
   readJSON plainNumber [] = None \<and>
   POST (readJSON plainNumber) (Inr (JObj [(''prompt'', JStr ''soup'')])) (Some ''key'')
     (replay [\<lparr>status = 200, body = ''{\"choices\":[{\"message\":{\"role\":\"assistant\"}}]}''\<rparr>]) =
     Failure 502 (InvalidJSON [])"
proof -
  let ?body = "''{\"choices\":[{\"message\":{\"role\":\"assistant\"}}]}''"
  let ?data = "JObj [(''choices'', JArr [JObj [(''message'', JObj [(''role'', JStr ''assistant'')])]])]"
  have h1: "getProp ''prompt'' (JObj [(''prompt'', JStr ''soup'')]) = Some (JStr ''soup'')" by simp
  have h2: "replay [\<lparr>status = 200, body = ?body\<rparr>] 0 = Inr \<lparr>status = 200, body = ?body\<rparr>"
    by (simp add: replay_def)
  have h3: "ok \<lparr>status = 200, body = ?body\<rparr>" by (simp add: ok_def)
  have h4: "readJSON plainNumber ?body = Some ?data" by code_simp
  have h5: "content ?data = None" by (simp add: content_def)
  have h6: "readJSON plainNumber [] = None" by (simp add: readJSON_def)
  have h: "getProp ''prompt'' (JObj [(''prompt'', JStr ''soup'')]) = Some (JStr ''soup'') \<and>
      ''soup'' \<noteq> [] \<and> ''key'' \<noteq> [] \<and>
      replay [\<lparr>status = 200, body = ?body\<rparr>] 0 = Inr \<lparr>status = 200, body = ?body\<rparr> \<and>
      ok \<lparr>status = 200, body = ?body\<rparr> \<and>
      readJSON plainNumber (body \<lparr>status = 200, body = ?body\<rparr>) = Some ?data \<and>
      (content ?data = None \<or> content ?data = Some JNull) \<and> readJSON plainNumber [] = None"
    using h1 h2 h3 h4 h5 h6 by simp
  have c: "POST (readJSON plainNumber) (Inr (JObj [(''prompt'', JStr ''soup'')])) (Some ''key'')
     (replay [\<lparr>status = 200, body = ?body\<rparr>]) = Failure 502 (InvalidJSON [])"
    by (rule C4_missing_completion_is_invalid_json
          [of "JObj [(''prompt'', JStr ''soup'')]" "''soup''" "''key''"
              "replay [\<lparr>status = 200, body = ?body\<rparr>]" "\<lparr>status = 200, body = ?body\<rparr>"
              "readJSON plainNumber" ?data,
           THEN conjunct1, THEN mp, OF h])
  show ?thesis
    by (intro conjI h1 h2 h3 h4 h5 h6 c)
qed

text \<open>
  C4 as stated fails: an envelope without choices gets the very reply that an envelope
  with an empty completion gets, \<^verbatim>\<open>Invalid JSON from model\<close>.
\<close>

theorem C4_counterexample:
  "POST (readJSON plainNumber) (Inr (JObj [(''prompt'', JStr ''soup'')])) (Some ''key'')
     (replay [\<lparr>status = 200, body = ''{\"id\":\"cmpl-1\",\"choices\":[]}''\<rparr>]) =
     Failure 502 (InvalidJSON []) \<and>
   POST (readJSON plainNumber) (Inr (JObj [(''prompt'', JStr ''soup'')])) (Some ''key'')
     (replay [\<lparr>status = 200, body = envelope []\<rparr>]) =
     Failure 502 (InvalidJSON [])"
  by code_simp

lemma mapE_Inl:
  assumes "i < length xs" and "f (xs ! i) = Inl e" and "\<And>x e'. f x = Inl e' \<Longrightarrow> e' = e"
  shows "mapE f xs = Inl e"
  using assms(1,2)
proof (induction xs arbitrary: i)
  case Nil
  then show ?case by simp
next
  case (Cons x xs)
  show ?case
  proof (cases i)
    case 0
    with Cons.prems show ?thesis by simp
  next
    case (Suc j)
    with Cons.prems have "mapE f xs = Inl e" by (intro Cons.IH [of j]) auto
    then show ?thesis using assms(3) by (auto split: sum.splits)
  qed
qed

lemma normSection_error: "normSection s = Inl e \<Longrightarrow> e = TypeError"
  by (cases s)
     (auto simp: normSection_def sectionTitle_def sectionUrl_def sectionTeaser_def
           split: sum.splits option.splits json.splits if_splits)

lemma normSection_untitled:
  assumes "\<not> isText (getProp ''title'' s)"
  shows "normSection s = Inl TypeError"
proof -
  have "sectionTitle s = Inl TypeError"
    using assms by (cases s) (auto simp: sectionTitle_def split: option.splits json.splits)
  then show ?thesis by (simp add: normSection_def)
qed

lemma landing_bad_title:
  assumes "getProp ''mode'' parsed = Some (JStr ''landing'')"
    and "isText (getProp ''intro'' parsed)"
    and "getProp ''sections'' parsed = Some (JArr secs)"
    and "i < length secs" and "i < 8" and "\<not> isText (getProp ''title'' (secs ! i))"
  shows "normalizePayload parsed = Inl TypeError"
proof -
  obtain kvs where p: "parsed = JObj kvs" using assms(1) by (cases parsed) simp_all
  obtain t where t: "getProp ''intro'' parsed = Some (JStr t)"
    using assms(2) by (cases "getProp ''intro'' parsed" rule: isText.cases) simp_all
  have "i < length (take 8 secs)" using assms(4,5) by simp
  moreover have "normSection (take 8 secs ! i) = Inl TypeError"
    using assms(5,6) by (simp add: normSection_untitled)
  ultimately have "mapE normSection (take 8 secs) = Inl TypeError"
    using normSection_error by (rule mapE_Inl)
  then have "landing parsed = Inl TypeError"
    using t assms(3) by (simp add: landing_def)
  then show ?thesis using assms(1) p by (simp add: normalizePayload_def)
qed


text \<open>
  C9. A landing JSON that passes the top-level shape check (\<^verbatim>\<open>intro\<close> is a string,
  \<^verbatim>\<open>sections\<close> is an array) and has, among its first eight sections, one whose title is
  absent or no string: the normalisation of that section throws, and the handler answers
  with the generic 500 of its \<^verbatim>\<open>catch\<close> block, not with \<^verbatim>\<open>Landing shape invalid\<close> and 502.
\<close>

theorem C9_untitled_section_answers_500:
  assumes "getProp ''prompt'' b = Some (JStr p)" and "p \<noteq> []" and "k \<noteq> []"
    and "fetch 0 = Inr res" and "ok res"
    and "parse (body res) = Some data" and "content data = Some (JStr raw)"
    and "parse (extractObject raw) = Some parsed"
    and "getProp ''mode'' parsed = Some (JStr ''landing'')"
    and "isText (getProp ''intro'' parsed)"
    and "getProp ''sections'' parsed = Some (JArr secs)"
    and "i < length secs" and "i < 8" and "\<not> isText (getProp ''title'' (secs ! i))"
  shows "normalizePayload parsed = Inl TypeError \<and>
         POST parse (Inr b) (Some k) fetch = Failure 500 (Uncaught TypeError) \<and>
         POST parse (Inr b) (Some k) fetch \<noteq> Failure 502 (LandingShapeInvalid parsed)"
proof -
  have n: "normalizePayload parsed = Inl TypeError"
    using assms(9-14) by (rule landing_bad_title)
  have "answer parse res = Inl TypeError"
    using answer_text [of res parse data raw, OF assms(5,6,7)] assms(8) n by simp
  then have "POST parse (Inr b) (Some k) fetch = Failure 500 (Uncaught TypeError)"
    using POST_answered [of b p k fetch res parse] assms(1-5) by simp
  with n show ?thesis by simp
qed

theorem C9_untitled_section_witness:
  "readJSON plainNumber
     (envelope ''{\"mode\":\"landing\",\"intro\":\"Ideas\",\"sections\":[{\"teaser\":\"No title\"}]}'') =
     Some (JObj [(''choices'', JArr [JObj [(''message'', JObj [(''role'', JStr ''assistant''),
       (''content'',
        JStr ''{\"mode\":\"landing\",\"intro\":\"Ideas\",\"sections\":[{\"teaser\":\"No title\"}]}'')])]])]) \<and>
   readJSON plainNumber
     (extractObject ''{\"mode\":\"landing\",\"intro\":\"Ideas\",\"sections\":[{\"teaser\":\"No title\"}]}'') =
     Some (JObj [(''mode'', JStr ''landing''), (''intro'', JStr ''Ideas''),
                 (''sections'', JArr [JObj [(''teaser'', JStr ''No title'')]])]) \<and>
   \<not> isText (getProp ''title'' ([JObj [(''teaser'', JStr ''No title'')]] ! 0)) \<and>
   POST (readJSON plainNumber) (Inr (JObj [(''prompt'', JStr ''ideas'')])) (Some ''key'')
     (replay [\<lparr>status = 200, body = envelope
        ''{\"mode\":\"landing\",\"intro\":\"Ideas\",\"sections\":[{\"teaser\":\"No title\"}]}''\<rparr>]) =
     Failure 500 (Uncaught TypeError)"
proof -
  let ?raw = "''{\"mode\":\"landing\",\"intro\":\"Ideas\",\"sections\":[{\"teaser\":\"No title\"}]}''"
  let ?res = "\<lparr>status = 200, body = envelope ?raw\<rparr>"
  let ?data = "JObj [(''choices'', JArr [JObj [(''message'', JObj [(''role'', JStr ''assistant''),
       (''content'', JStr ?raw)])]])]"
  let ?secs = "[JObj [(''teaser'', JStr ''No title'')]]"
  let ?parsed = "JObj [(''mode'', JStr ''landing''), (''intro'', JStr ''Ideas''),
                 (''sections'', JArr ?secs)]"
  have h1: "getProp ''prompt'' (JObj [(''prompt'', JStr ''ideas'')]) = Some (JStr ''ideas'')"
    by simp
  have h2: "''ideas'' \<noteq> []" and h3: "''key'' \<noteq> []" by simp_all
  have h4: "replay [?res] 0 = Inr ?res" by (simp add: replay_def)
  have h5: "ok ?res" by (simp add: ok_def)
  have h6': "readJSON plainNumber (envelope ?raw) = Some ?data" by code_simp
  then have h6: "readJSON plainNumber (body ?res) = Some ?data" by simp
  have h7: "content ?data = Some (JStr ?raw)" by (simp add: content_def)
  have h8: "readJSON plainNumber (extractObject ?raw) = Some ?parsed" by code_simp
  have h9: "getProp ''mode'' ?parsed = Some (JStr ''landing'')" by simp
  have h10: "isText (getProp ''intro'' ?parsed)" by simp
  have h11: "getProp ''sections'' ?parsed = Some (JArr ?secs)" by simp
  have h12: "0 < length ?secs" and h13: "(0::nat) < 8" by simp_all
  have h14: "\<not> isText (getProp ''title'' (?secs ! 0))" by simp
  have c: "POST (readJSON plainNumber) (Inr (JObj [(''prompt'', JStr ''ideas'')])) (Some ''key'')
      (replay [?res]) = Failure 500 (Uncaught TypeError)"
    using C9_untitled_section_answers_500
      [where b = "JObj [(''prompt'', JStr ''ideas'')]" and p = "''ideas''" and k = "''key''"
         and fetch = "replay [?res]" and res = ?res and parse = "readJSON plainNumber"
         and data = ?data and raw = ?raw and parsed = ?parsed and secs = ?secs and i = 0,
       OF h1 h2 h3 h4 h5 h6 h7 h8 h9 h10 h11 h12 h13 h14]
    by (rule conjunct1 [OF conjunct2])
  show ?thesis
    by (intro conjI h6' h8 h14 c)
qed

section \<open>The validator and normaliser: sections and the landing branch\<close>

lemma getProp_assign:
  "getProp k' (assign k v (JObj kvs)) = (if k' = k then Some v else map_of kvs k')"
  by (simp add: update_conv')

lemma assign_same: "getProp k (JObj kvs) = Some v \<Longrightarrow> assign k v (JObj kvs) = JObj kvs"
  by (simp add: update_triv)

lemma getProp_SomeE:
  assumes "getProp k p = Some v"
  obtains kvs where "p = JObj kvs" and "map_of kvs k = Some v"
  using assms by (cases p) simp_all

lemma isTextE:
  assumes "isText v"
  obtains t where "v = Some (JStr t)"
  using assms by (cases v rule: isText.cases) simp_all

lemma mapE_Inr_nth:
  "mapE f xs = Inr ys \<Longrightarrow> length ys = length xs \<and> (\<forall>i<length xs. f (xs ! i) = Inr (ys ! i))"
proof (induction xs arbitrary: ys)
  case Nil
  then show ?case by simp
next
  case (Cons x xs)
  from Cons.prems obtain y zs where y: "f x = Inr y" and zs: "mapE f xs = Inr zs"
    and ys: "ys = y # zs"
    by (auto split: sum.splits)
  from Cons.IH [OF zs] y ys show ?case
    by (auto simp: nth_Cons split: nat.splits)
qed

lemma mapE_total:
  "(\<And>x. x \<in> set xs \<Longrightarrow> \<exists>y. f x = Inr y) \<Longrightarrow> \<exists>ys. mapE f xs = Inr ys"
proof (induction xs)
  case Nil
  then show ?case by simp
next
  case (Cons x xs)
  then obtain y where "f x = Inr y" by auto
  moreover from Cons obtain ys where "mapE f xs = Inr ys" by auto
  ultimately show ?case by simp
qed


lemma mapE_result_all:
  "mapE f xs = Inr ys \<Longrightarrow> (\<And>x y. f x = Inr y \<Longrightarrow> P y) \<Longrightarrow> list_all P ys"
proof (induction xs arbitrary: ys)
  case Nil
  then show ?case by simp
next
  case (Cons x xs)
  from Cons.prems(1) obtain y zs where y: "f x = Inr y" and zs: "mapE f xs = Inr zs"
    and ys: "ys = y # zs"
    by (auto split: sum.splits)
  show ?case using Cons.IH [OF zs Cons.prems(2)] Cons.prems(2) [OF y] ys by simp
qed

subsection \<open>Sections\<close>

lemma startsWithSlash_recipes: "startsWithSlash (''/recipes/'' @ s)"
  by simp

lemma normSection_typed:
  assumes "getProp ''title'' s = Some (JStr t)"
    and "optText (getProp ''teaser'' s)" and "optText (getProp ''url'' s)"
  shows "normSection s =
           Inr (JObj [(''title'', JStr (trim (toUpperCase t))),
                      (''teaser'',
                       JStr (case getProp ''teaser'' s of Some (JStr e) \<Rightarrow> trim e | other \<Rightarrow> [])),
                      (''url'',
                       JStr (case getProp ''url'' s of
                               Some (JStr u) \<Rightarrow>
                                 if startsWithSlash u then u
                                 else ''/recipes/'' @ slugify (trim (toUpperCase t))
                             | other \<Rightarrow> ''/recipes/'' @ slugify (trim (toUpperCase t))))])"
proof -
  obtain kvs where s: "s = JObj kvs" using assms(1) by (rule getProp_SomeE)
  have t: "sectionTitle s = Inr (trim (toUpperCase t))"
    using assms(1) s by (simp add: sectionTitle_def)
  show ?thesis
    using assms(2,3) unfolding normSection_def t
    by (auto simp: optText_def sectionUrl_def sectionTeaser_def elim!: isTextE)
qed




subsection \<open>The slug of a title\<close>

lemma trim_pad_left:
  assumes "list_all isSpace a"
  shows "trim (a @ m) = trim m"
  using assms by (simp add: trim_def list_all_iff)

lemma trim_pad_right:
  assumes "list_all isSpace b"
  shows "trim (m @ b) = trim m"
proof (cases "list_all isSpace m")
  case True
  with assms have "dropWhile isSpace (m @ b) = []" and "dropWhile isSpace m = []"
    by (simp_all add: list_all_iff)
  then show ?thesis by (simp only: trim_def rev.simps dropWhile.simps)
next
  case False
  then obtain x where x: "x \<in> set m" "\<not> isSpace x" by (auto simp: list_all_iff)
  then have "dropWhile isSpace (m @ b) = dropWhile isSpace m @ b"
    by (rule dropWhile_append1)
  moreover have "dropWhile isSpace (rev b @ rev (dropWhile isSpace m)) =
      dropWhile isSpace (rev (dropWhile isSpace m))"
    using assms by (intro dropWhile_append2) (simp add: list_all_iff)
  ultimately show ?thesis by (simp add: trim_def)
qed

lemma trim_decomposition:
  "\<exists>a b. s = a @ trim s @ b \<and> list_all isSpace a \<and> list_all isSpace b"
proof -
  let ?l = "dropWhile isSpace s"
  have "?l = rev (takeWhile isSpace (rev ?l) @ dropWhile isSpace (rev ?l))"
    by (simp only: takeWhile_dropWhile_id rev_rev_ident)
  then have l: "?l = trim s @ rev (takeWhile isSpace (rev ?l))"
    by (simp only: rev_append trim_def)
  have "s = takeWhile isSpace s @ ?l" by simp
  with l have "s = takeWhile isSpace s @ trim s @ rev (takeWhile isSpace (rev ?l))" by simp
  moreover have "list_all isSpace (takeWhile isSpace s)"
    by (auto simp: list_all_iff dest: set_takeWhileD)
  moreover have "list_all isSpace (rev (takeWhile isSpace (rev ?l)))"
    by (auto simp: list_all_iff dest: set_takeWhileD)
  ultimately show ?thesis by blast
qed

lemma trim_filter_trim:
  assumes "\<And>c. isSpace c \<Longrightarrow> K c"
  shows "trim (filter K (trim s)) = trim (filter K s)"
proof -
  obtain a b where s: "s = a @ trim s @ b" and a: "list_all isSpace a" and b: "list_all isSpace b"
    using trim_decomposition by blast
  have "filter K s = filter K a @ filter K (trim s) @ filter K b"
    by (subst s) simp
  moreover have "list_all isSpace (filter K a)" and "list_all isSpace (filter K b)"
    using a b by (simp_all add: list_all_iff)
  ultimately show ?thesis
    by (simp add: trim_pad_left trim_pad_right [of "filter K b", simplified] trim_pad_right)
qed

lemma slugify_title: "slugify (trim (toUpperCase t)) = slugify t"
proof -
  have "toLowerCase (trim (toUpperCase t)) = trim (toLowerCase t)"
    by (simp add: trim_toLowerCase [symmetric] trim_toUpperCase [symmetric]
                  trim_trim toLowerCase_toUpperCase)
  then show ?thesis
    by (simp add: slugify_def trim_filter_trim slugChar_def)
qed


subsection \<open>The landing branch\<close>

lemma landing_success:
  assumes "getProp ''mode'' parsed = Some (JStr ''landing'')"
    and "isText (getProp ''intro'' parsed)"
    and "getProp ''sections'' parsed = Some (JArr secs)"
    and "mapE normSection (take 8 secs) = Inr ss"
  shows "normalizePayload parsed = Inr (Success (assign ''sections'' (JArr ss) parsed))"
proof -
  obtain kvs where p: "parsed = JObj kvs" using assms(1) by (rule getProp_SomeE)
  obtain t where t: "getProp ''intro'' parsed = Some (JStr t)" using assms(2) by (rule isTextE)
  have "landing parsed = Inr (Success (assign ''sections'' (JArr ss) parsed))"
    using t assms(3,4) by (simp add: landing_def)
  then show ?thesis using assms(1) p by (simp add: normalizePayload_def)
qed


lemma typed_sections_normalise:
  assumes "list_all typedSection xs"
  shows "\<exists>ss. mapE normSection xs = Inr ss"
proof (rule mapE_total)
  fix x assume "x \<in> set xs"
  with assms have t: "typedSection x" by (simp add: list_all_iff)
  then obtain t where "getProp ''title'' x = Some (JStr t)"
    by (auto simp: typedSection_def elim: isTextE)
  with t show "\<exists>y. normSection x = Inr y"
    using normSection_typed [of x t] by (simp add: typedSection_def)
qed

text \<open>
  C6. A landing JSON with more than eight sections, the first eight of them sections as
  the type has them: the normalisation succeeds, and the payload has exactly eight
  sections, the \<open>i\<close>-th being the normalised \<open>i\<close>-th section of the input. The sections
  after the eighth are dropped without a failure, whatever they are.
\<close>

theorem C6_landing_keeps_first_eight:
  assumes "getProp ''mode'' parsed = Some (JStr ''landing'')"
    and "isText (getProp ''intro'' parsed)"
    and "getProp ''sections'' parsed = Some (JArr secs)"
    and "8 < length secs"
    and "list_all typedSection (take 8 secs)"
  shows "\<exists>out ss. normalizePayload parsed = Inr (Success out) \<and>
           getProp ''sections'' out = Some (JArr ss) \<and> length ss = 8 \<and>
           (\<forall>i<8. normSection (secs ! i) = Inr (ss ! i))"
proof -
  obtain kvs where p: "parsed = JObj kvs" using assms(1) by (rule getProp_SomeE)
  obtain ss where ss: "mapE normSection (take 8 secs) = Inr ss"
    using typed_sections_normalise [OF assms(5)] by blast
  have n: "normalizePayload parsed = Inr (Success (assign ''sections'' (JArr ss) parsed))"
    using assms(1,2,3) ss by (rule landing_success)
  have g: "getProp ''sections'' (assign ''sections'' (JArr ss) parsed) = Some (JArr ss)"
    using p by (simp add: update_conv')
  from mapE_Inr_nth [OF ss] assms(4)
  have "length ss = 8" and "\<forall>i<8. normSection (secs ! i) = Inr (ss ! i)"
    by auto
  with n g show ?thesis by blast
qed


section \<open>The validator and normaliser: the recipe branch and whole payloads\<close>

subsection \<open>Lists of texts\<close>

lemma trimmedText_trimmed: "trimmedText x = Inr t \<Longrightarrow> trimmed t"
  by (auto simp: trimmedText_def trimmed_def trim_trim split: sum.splits)


lemma textList_trimmed: "textList xs = Inr ts \<Longrightarrow> list_all trimmed ts"
  unfolding textList_def by (erule mapE_result_all) (rule trimmedText_trimmed)





subsection \<open>Ingredient groups\<close>




subsection \<open>The recipe branch\<close>

lemma normIntro_obj:
  assumes "normIntro (JObj kvs) = Inr p"
  shows "\<exists>ikvs. p = JObj ikvs \<and>
           (\<forall>k. k \<noteq> ''intro'' \<longrightarrow> map_of ikvs k = map_of kvs k) \<and>
           (case map_of ikvs ''intro'' of
              None \<Rightarrow> map_of kvs ''intro'' = None
            | Some v \<Rightarrow> (\<not> truthy v \<and> map_of kvs ''intro'' = Some v) \<or> hasText trimmed (Some v))"
proof (cases "map_of kvs ''intro''")
  case None
  with assms show ?thesis by (auto simp: normIntro_def)
next
  case (Some v)
  show ?thesis
  proof (cases "truthy v")
    case False
    with assms Some show ?thesis by (auto simp: normIntro_def)
  next
    case True
    with assms Some obtain t where t: "trimmedText v = Inr t"
      and p: "p = JObj (AList.update ''intro'' (JStr t) kvs)"
      by (auto simp: normIntro_def split: sum.splits)
    have "trimmed t" using t by (rule trimmedText_trimmed)
    then show ?thesis using p by (simp add: update_conv')
  qed
qed


lemma normTexts_obj:
  assumes "normTexts k (JObj kvs) = Inr p"
  shows "\<exists>ts. p = JObj (AList.update k (JArr (map JStr ts)) kvs) \<and> list_all trimmed ts"
proof -
  from assms obtain ts where
    ts: "(case map_of kvs k of
            None \<Rightarrow> Inr []
          | Some JNull \<Rightarrow> Inr []
          | Some (JArr xs) \<Rightarrow> textList xs
          | Some other \<Rightarrow> Inl TypeError) = Inr ts"
    and p: "p = JObj (AList.update k (JArr (map JStr ts)) kvs)"
    by (auto simp: normTexts_def split: sum.splits)
  from ts have "list_all trimmed ts"
    by (auto dest: textList_trimmed split: option.splits json.splits)
  with p show ?thesis by blast
qed


lemma recipe_SuccessE:
  assumes "getProp ''mode'' parsed = Some (JStr ''recipe'')"
    and "normalizePayload parsed = Inr (Success out)"
  obtains kvs title ings steps gs ts ikvs us vs where
    "parsed = JObj kvs"
    and "map_of kvs ''title'' = Some (JStr title)"
    and "map_of kvs ''ingredients'' = Some (JArr ings)"
    and "map_of kvs ''steps'' = Some (JArr steps)"
    and "mapE normGroup ings = Inr gs"
    and "textList steps = Inr ts"
    and "normIntro (JObj (AList.update ''steps'' (JArr (map JStr (nonEmpty ts)))
           (AList.update ''ingredients'' (JArr gs)
             (AList.update ''title'' (JStr (trim title)) kvs)))) = Inr (JObj ikvs)"
    and "list_all trimmed us" and "list_all trimmed vs"
    and "out = JObj (AList.update ''suggested_additions'' (JArr (map JStr vs))
                 (AList.update ''used_ingredients'' (JArr (map JStr us)) ikvs))"
proof -
  obtain kvs where p: "parsed = JObj kvs" using assms(1) by (rule getProp_SomeE)
  from assms p have r: "recipe (JObj kvs) = Inr (Success out)"
    by (simp add: normalizePayload_def)
  then obtain title ings steps where t: "map_of kvs ''title'' = Some (JStr title)"
    and i: "map_of kvs ''ingredients'' = Some (JArr ings)"
    and s: "map_of kvs ''steps'' = Some (JArr steps)"
    by (auto simp: recipe_def split: option.splits json.splits)
  from r t i s obtain gs ts p1 p2 where gs: "mapE normGroup ings = Inr gs"
    and ts: "textList steps = Inr ts"
    and p1: "normIntro (JObj (AList.update ''steps'' (JArr (map JStr (nonEmpty ts)))
           (AList.update ''ingredients'' (JArr gs)
             (AList.update ''title'' (JStr (trim title)) kvs)))) = Inr p1"
    and p2: "normTexts ''used_ingredients'' p1 = Inr p2"
    and p3: "normTexts ''suggested_additions'' p2 = Inr out"
    by (auto simp: recipe_def split: sum.splits)
  from normIntro_obj [OF p1] obtain ikvs where ik: "p1 = JObj ikvs" by blast
  from normTexts_obj [OF p2 [unfolded ik]] obtain us
    where us: "p2 = JObj (AList.update ''used_ingredients'' (JArr (map JStr us)) ikvs)"
      and tus: "list_all trimmed us" by blast
  from normTexts_obj [OF p3 [unfolded us]] obtain vs
    where vs: "out = JObj (AList.update ''suggested_additions'' (JArr (map JStr vs))
                 (AList.update ''used_ingredients'' (JArr (map JStr us)) ikvs))"
      and tvs: "list_all trimmed vs" by blast
  show thesis
    using that [OF p t i s gs ts p1 [unfolded ik] tus tvs vs] .
qed


lemma recipe_frame:
  assumes "getProp ''mode'' parsed = Some (JStr ''recipe'')"
    and "normalizePayload parsed = Inr (Success out)"
    and "k \<notin> {''title'', ''intro'', ''ingredients'', ''steps'', ''used_ingredients'',
               ''suggested_additions''}"
  shows "getProp k out = getProp k parsed"
proof -
  from assms(1,2) obtain kvs title gs ts ikvs us vs where
    p: "parsed = JObj kvs"
    and i: "normIntro (JObj (AList.update ''steps'' (JArr (map JStr (nonEmpty ts)))
           (AList.update ''ingredients'' (JArr gs)
             (AList.update ''title'' (JStr (trim title)) kvs)))) = Inr (JObj ikvs)"
    and out: "out = JObj (AList.update ''suggested_additions'' (JArr (map JStr vs))
                 (AList.update ''used_ingredients'' (JArr (map JStr us)) ikvs))"
    by (rule recipe_SuccessE)
  from normIntro_obj [OF i] assms(3)
  have "map_of ikvs k = map_of (AList.update ''steps'' (JArr (map JStr (nonEmpty ts)))
           (AList.update ''ingredients'' (JArr gs)
             (AList.update ''title'' (JStr (trim title)) kvs))) k"
    by auto
  then show ?thesis using assms(3) p out by (simp add: update_conv')
qed

text \<open>
  C10. When a recipe JSON is normalised, the payload has \<^verbatim>\<open>servings\<close>, \<^verbatim>\<open>time\<close> and
  \<^verbatim>\<open>notes\<close> as the model gave them, present or absent; the same holds for every property
  other than \<^verbatim>\<open>title\<close>, \<^verbatim>\<open>intro\<close>, \<^verbatim>\<open>ingredients\<close>, \<^verbatim>\<open>steps\<close>, \<^verbatim>\<open>used_ingredients\<close> and
  \<^verbatim>\<open>suggested_additions\<close>.
\<close>

theorem C10_recipe_frame:
  assumes "getProp ''mode'' parsed = Some (JStr ''recipe'')"
    and "normalizePayload parsed = Inr (Success out)"
  shows "getProp ''servings'' out = getProp ''servings'' parsed \<and>
         getProp ''time'' out = getProp ''time'' parsed \<and>
         getProp ''notes'' out = getProp ''notes'' parsed \<and>
         (\<forall>k. k \<notin> {''title'', ''intro'', ''ingredients'', ''steps'', ''used_ingredients'',
                     ''suggested_additions''} \<longrightarrow> getProp k out = getProp k parsed)"
  using recipe_frame [OF assms] by simp









subsection \<open>Examples\<close>

lemma tuna_roll:
  "normalizePayload
     (JObj [(''mode'', JStr ''recipe''), (''title'', JStr ''  spicy tuna roll ''),
            (''servings'', JNum ''4''),
            (''ingredients'',
             JArr [JObj [(''group'', JStr '' Filling ''),
                         (''items'', JArr [JStr ''tuna'', JStr '' '', JStr ''rice''])]]),
            (''steps'', JArr [JStr '' Cook rice.'', JStr ''Roll it.'']),
            (''notes'', JArr [JStr '' Serve cold ''])]) =
   Inr (Success
     (JObj [(''mode'', JStr ''recipe''), (''title'', JStr ''spicy tuna roll''),
            (''servings'', JNum ''4''),
            (''ingredients'',
             JArr [JObj [(''group'', JStr ''Filling''),
                         (''items'', JArr [JStr ''tuna'', JStr ''rice''])]]),
            (''steps'', JArr [JStr ''Cook rice.'', JStr ''Roll it.'']),
            (''notes'', JArr [JStr '' Serve cold '']),
            (''used_ingredients'', JArr []), (''suggested_additions'', JArr [])]))"
  by code_simp

theorem C10_recipe_frame_witness:
  "getProp ''mode''
     (JObj [(''mode'', JStr ''recipe''), (''title'', JStr ''  spicy tuna roll ''),
            (''servings'', JNum ''4''),
            (''ingredients'',
             JArr [JObj [(''group'', JStr '' Filling ''),
                         (''items'', JArr [JStr ''tuna'', JStr '' '', JStr ''rice''])]]),
            (''steps'', JArr [JStr '' Cook rice.'', JStr ''Roll it.'']),
            (''notes'', JArr [JStr '' Serve cold ''])]) = Some (JStr ''recipe'') \<and>
   normalizePayload
     (JObj [(''mode'', JStr ''recipe''), (''title'', JStr ''  spicy tuna roll ''),
            (''servings'', JNum ''4''),
            (''ingredients'',
             JArr [JObj [(''group'', JStr '' Filling ''),
                         (''items'', JArr [JStr ''tuna'', JStr '' '', JStr ''rice''])]]),
            (''steps'', JArr [JStr '' Cook rice.'', JStr ''Roll it.'']),
            (''notes'', JArr [JStr '' Serve cold ''])]) =
   Inr (Success
     (JObj [(''mode'', JStr ''recipe''), (''title'', JStr ''spicy tuna roll''),
            (''servings'', JNum ''4''),
            (''ingredients'',
             JArr [JObj [(''group'', JStr ''Filling''),
                         (''items'', JArr [JStr ''tuna'', JStr ''rice''])]]),
            (''steps'', JArr [JStr ''Cook rice.'', JStr ''Roll it.'']),
            (''notes'', JArr [JStr '' Serve cold '']),
            (''used_ingredients'', JArr []), (''suggested_additions'', JArr [])])) \<and>
   getProp ''servings''
     (JObj [(''mode'', JStr ''recipe''), (''title'', JStr ''spicy tuna roll''),
            (''servings'', JNum ''4''),
            (''ingredients'',
             JArr [JObj [(''group'', JStr ''Filling''),
                         (''items'', JArr [JStr ''tuna'', JStr ''rice''])]]),
            (''steps'', JArr [JStr ''Cook rice.'', JStr ''Roll it.'']),
            (''notes'', JArr [JStr '' Serve cold '']),
            (''used_ingredients'', JArr []), (''suggested_additions'', JArr [])]) =
   getProp ''servings''
     (JObj [(''mode'', JStr ''recipe''), (''title'', JStr ''  spicy tuna roll ''),
            (''servings'', JNum ''4''),
            (''ingredients'',
             JArr [JObj [(''group'', JStr '' Filling ''),
                         (''items'', JArr [JStr ''tuna'', JStr '' '', JStr ''rice''])]]),
            (''steps'', JArr [JStr '' Cook rice.'', JStr ''Roll it.'']),
            (''notes'', JArr [JStr '' Serve cold ''])]) \<and>
   getProp ''notes''
     (JObj [(''mode'', JStr ''recipe''), (''title'', JStr ''spicy tuna roll''),
            (''servings'', JNum ''4''),
            (''ingredients'',
             JArr [JObj [(''group'', JStr ''Filling''),
                         (''items'', JArr [JStr ''tuna'', JStr ''rice''])]]),
            (''steps'', JArr [JStr ''Cook rice.'', JStr ''Roll it.'']),
            (''notes'', JArr [JStr '' Serve cold '']),
            (''used_ingredients'', JArr []), (''suggested_additions'', JArr [])]) =
   getProp ''notes''
     (JObj [(''mode'', JStr ''recipe''), (''title'', JStr ''  spicy tuna roll ''),
            (''servings'', JNum ''4''),
            (''ingredients'',
             JArr [JObj [(''group'', JStr '' Filling ''),
                         (''items'', JArr [JStr ''tuna'', JStr '' '', JStr ''rice''])]]),
            (''steps'', JArr [JStr '' Cook rice.'', JStr ''Roll it.'']),
            (''notes'', JArr [JStr '' Serve cold ''])])"
proof -
  let ?p = "(JObj [(''mode'', JStr ''recipe''), (''title'', JStr ''  spicy tuna roll ''),
            (''servings'', JNum ''4''),
            (''ingredients'',
             JArr [JObj [(''group'', JStr '' Filling ''),
                         (''items'', JArr [JStr ''tuna'', JStr '' '', JStr ''rice''])]]),
            (''steps'', JArr [JStr '' Cook rice.'', JStr ''Roll it.'']),
            (''notes'', JArr [JStr '' Serve cold ''])])"
  let ?q = "(JObj [(''mode'', JStr ''recipe''), (''title'', JStr ''spicy tuna roll''),
            (''servings'', JNum ''4''),
            (''ingredients'',
             JArr [JObj [(''group'', JStr ''Filling''),
                         (''items'', JArr [JStr ''tuna'', JStr ''rice''])]]),
            (''steps'', JArr [JStr ''Cook rice.'', JStr ''Roll it.'']),
            (''notes'', JArr [JStr '' Serve cold '']),
            (''used_ingredients'', JArr []), (''suggested_additions'', JArr [])])"
  have m: "getProp ''mode'' ?p = Some (JStr ''recipe'')" by simp
  note f = C10_recipe_frame [OF m tuna_roll]
  have s: "getProp ''servings'' ?q = getProp ''servings'' ?p"
    by (rule f [THEN conjunct1])
  have n: "getProp ''notes'' ?q = getProp ''notes'' ?p"
    by (rule f [THEN conjunct2, THEN conjunct2, THEN conjunct1])
  show ?thesis
    by (intro conjI m tuna_roll s n)
qed





theorem C6_landing_keeps_first_eight_witness:
  "8 < length (map (\<lambda>t. JObj [(''title'', JStr t)])
               [''a'', ''b'', ''c'', ''d'', ''e'', ''f'', ''g'', ''h'', ''i'']) \<and>
   list_all typedSection (take 8 (map (\<lambda>t. JObj [(''title'', JStr t)])
               [''a'', ''b'', ''c'', ''d'', ''e'', ''f'', ''g'', ''h'', ''i''])) \<and>
   (\<exists>out ss.
      normalizePayload
        (JObj [(''mode'', JStr ''landing''), (''intro'', JStr ''Ideas''),
            (''sections'', JArr (map (\<lambda>t. JObj [(''title'', JStr t)])
               [''a'', ''b'', ''c'', ''d'', ''e'', ''f'', ''g'', ''h'', ''i'']))]) = Inr (Success out) \<and>
      getProp ''sections'' out = Some (JArr ss) \<and> length ss = 8 \<and>
      (\<forall>i<8. normSection ((map (\<lambda>t. JObj [(''title'', JStr t)])
               [''a'', ''b'', ''c'', ''d'', ''e'', ''f'', ''g'', ''h'', ''i'']) ! i) = Inr (ss ! i)))"
proof -
  let ?secs = "(map (\<lambda>t. JObj [(''title'', JStr t)])
               [''a'', ''b'', ''c'', ''d'', ''e'', ''f'', ''g'', ''h'', ''i''])"
  let ?p = "(JObj [(''mode'', JStr ''landing''), (''intro'', JStr ''Ideas''),
            (''sections'', JArr (map (\<lambda>t. JObj [(''title'', JStr t)])
               [''a'', ''b'', ''c'', ''d'', ''e'', ''f'', ''g'', ''h'', ''i'']))])"
  have h1: "getProp ''mode'' ?p = Some (JStr ''landing'')" by simp
  have h2: "isText (getProp ''intro'' ?p)" by simp
  have h3: "getProp ''sections'' ?p = Some (JArr ?secs)" by simp
  have h4: "8 < length ?secs" by simp
  have h5: "list_all typedSection (take 8 ?secs)"
    by (simp add: typedSection_def optText_def)
  show ?thesis
    by (intro conjI h4 h5 C6_landing_keeps_first_eight [OF h1 h2 h3 h4 h5])
qed


end
